theory Spec2Isabelle
  imports Main "HOL-Library.AList"
begin

section \<open>Bytes, errors and the byte source\<close>

text \<open>
  The reader works on \<open>std::byte\<close> and \<open>char\<close> buffers; both are modelled by
  \<open>char\<close> (an 8-bit value), and a buffer is a \<open>char list\<close>.  Sizes and offsets are
  \<open>uint64_t\<close>/\<open>size_t\<close> in the source (64 bits on the Linux targets of
  \<open>mmap_stream\<close>); they are \<open>nat\<close> here, with the wrap-around modulo \<open>2 ^ 64\<close>
  written out wherever the source can overflow.
\<close>

type_synonym bytes = "char list"

definition BLOCK_SIZE :: nat where
  "BLOCK_SIZE = 512"

abbreviation NUL :: char where
  "NUL \<equiv> CHR 0x00"

definition u64 :: "nat \<Rightarrow> nat" where
  "u64 n = n mod 2 ^ 64"

datatype error_code =
  invalid_header | corrupt_archive | io_error | unsupported_feature
  | invalid_operation | end_of_archive

text \<open>\<open>class error\<close>: a code and a message.\<close>

type_synonym error = "error_code \<times> string"

text \<open>
  \<open>mmap_stream\<close> (stream.cpp): the mapped bytes and the read position.  \<open>read\<close>
  never fails and returns at most the bytes that are left; \<open>skip\<close> refuses to go past
  the end, where the sum \<open>position_ + bytes\<close> is a \<open>size_t\<close> sum.
\<close>

record mmap_stream =
  data :: bytes
  position :: nat

definition stream_read :: "nat \<Rightarrow> mmap_stream \<Rightarrow> (error + bytes) \<times> mmap_stream" where
  "stream_read n s =
     (let available = length (data s) - position s;
          to_read = min n available
      in (Inr (take to_read (drop (position s) (data s))),
          s\<lparr>position := position s + to_read\<rparr>))"

definition stream_skip :: "nat \<Rightarrow> mmap_stream \<Rightarrow> (error + unit) \<times> mmap_stream" where
  "stream_skip n s =
     (if u64 (position s + n) > length (data s)
      then (Inl (io_error, ''Skip past end of stream''), s)
      else (Inr (), s\<lparr>position := u64 (position s + n)\<rparr>))"

definition at_end :: "mmap_stream \<Rightarrow> bool" where
  "at_end s = (position s \<ge> length (data s))"

section \<open>Numeric and string fields (header_parser.hpp, pax_parser.cpp)\<close>

definition is_octal_char :: "char \<Rightarrow> bool" where
  "is_octal_char c = (48 \<le> (of_char c :: nat) \<and> (of_char c :: nat) \<le> 55)"

definition is_digit_char :: "char \<Rightarrow> bool" where
  "is_digit_char c = (48 \<le> (of_char c :: nat) \<and> (of_char c :: nat) \<le> 57)"

definition digit_of :: "char \<Rightarrow> nat" where
  "digit_of c = of_char c - 48"

text \<open>
  \<open>detail::parse_octal\<close>: the loop over the field with its two variables \<open>result\<close>
  and \<open>found_digit\<close>.  \<open>UINT64_MAX >> 3\<close> is \<open>(2 ^ 64 - 1) div 8\<close>; below that bound
  \<open>(result << 3) | digit\<close> is \<open>result * 8 + digit\<close>.
\<close>

fun parse_octal_loop :: "bytes \<Rightarrow> nat \<Rightarrow> bool \<Rightarrow> error + nat" where
  "parse_octal_loop [] result found_digit = Inr (if found_digit then result else 0)"
| "parse_octal_loop (c # cs) result found_digit =
     (if c = NUL \<or> c = CHR '' '' then
        (if \<not> found_digit then parse_octal_loop cs result found_digit
         else Inr (if found_digit then result else 0))
      else if \<not> is_octal_char c then Inl (invalid_header, ''Invalid octal digit'')
      else if result > (2 ^ 64 - 1) div 8 then Inl (invalid_header, ''Octal value overflow'')
      else parse_octal_loop cs (result * 8 + digit_of c) True)"

definition parse_octal :: "bytes \<Rightarrow> error + nat" where
  "parse_octal field = parse_octal_loop field 0 False"

text \<open>
  \<open>std::from_chars\<close> for an unsigned type of \<open>bits\<close> bits, base 10: the longest
  leading run of digits is converted; no digit at all or a value that does not fit is a
  failure (and the output variable keeps its old value).  Characters after the digits
  are left unread and are not an error.
\<close>

definition decimal_value :: "bytes \<Rightarrow> nat" where
  "decimal_value ds = foldl (\<lambda>acc c. acc * 10 + digit_of c) 0 ds"

definition from_chars_unsigned :: "nat \<Rightarrow> bytes \<Rightarrow> nat option" where
  "from_chars_unsigned bits s =
     (let ds = takeWhile is_digit_char s
      in if ds = [] then None
         else if decimal_value ds < 2 ^ bits then Some (decimal_value ds) else None)"

text \<open>\<open>std::from_chars\<close> for \<open>int\<close>: an optional minus sign, then digits.\<close>

definition from_chars_int :: "bytes \<Rightarrow> int option" where
  "from_chars_int s =
     (case s of
        [] \<Rightarrow> None
      | c # cs \<Rightarrow>
          if c = CHR ''-'' then
            (let ds = takeWhile is_digit_char cs
             in if ds = [] then None
                else if decimal_value ds \<le> 2 ^ 31 then Some (- int (decimal_value ds)) else None)
          else
            (let ds = takeWhile is_digit_char s
             in if ds = [] then None
                else if decimal_value ds < 2 ^ 31 then Some (int (decimal_value ds)) else None))"

text \<open>\<open>detail::extract_string\<close>: the field up to its first NUL byte.\<close>

definition extract_string :: "bytes \<Rightarrow> string" where
  "extract_string field = takeWhile (\<lambda>c. c \<noteq> NUL) field"

definition is_zero_block :: "bytes \<Rightarrow> bool" where
  "is_zero_block block = list_all (\<lambda>b. b = NUL) block"

section \<open>Sparse descriptors (sparse.hpp, sparse.cpp)\<close>

record sparse_entry =
  offset :: nat
  numbytes :: nat

record sparse_metadata =
  real_size :: nat
  segments :: "sparse_entry list"

text \<open>\<open>sparse_metadata::total_data_size\<close>: a \<open>uint64_t\<close> sum of the segment sizes.\<close>

definition total_data_size :: "sparse_metadata \<Rightarrow> nat" where
  "total_data_size sm = foldl (\<lambda>total seg. u64 (total + numbytes seg)) 0 (segments sm)"

text \<open>
  \<open>sparse_metadata::find_segment\<close>: the index of the first segment with
  \<open>offset >= segoffset && offset < segoffset + size\<close> (a \<open>uint64_t\<close> sum).
\<close>

fun find_segment_from :: "nat \<Rightarrow> sparse_entry list \<Rightarrow> nat \<Rightarrow> nat option" where
  "find_segment_from i [] off = None"
| "find_segment_from i (seg # segs) off =
     (if off \<ge> offset seg \<and> off < u64 (offset seg + numbytes seg) then Some i
      else find_segment_from (Suc i) segs off)"

definition find_segment :: "sparse_metadata \<Rightarrow> nat \<Rightarrow> nat option" where
  "find_segment sm off = find_segment_from 0 (segments sm) off"

text \<open>
  \<open>parse_sparse_octal\<close>: every start position of the field is tried; the run of octal
  digits that starts there is converted, and the longest run wins (the first one among
  runs of the same length).
\<close>

definition octal_value :: "bytes \<Rightarrow> nat" where
  "octal_value ds = foldl (\<lambda>v c. u64 (v * 8 + digit_of c)) 0 ds"

fun parse_sparse_octal_loop :: "bytes \<Rightarrow> nat \<Rightarrow> nat \<Rightarrow> nat option" where
  "parse_sparse_octal_loop [] best_value best_len =
     (if best_len > 0 then Some best_value else None)"
| "parse_sparse_octal_loop (c # cs) best_value best_len =
     (if is_octal_char c then
        (let run = takeWhile is_octal_char (c # cs)
         in if length run > best_len
            then parse_sparse_octal_loop cs (octal_value run) (length run)
            else parse_sparse_octal_loop cs best_value best_len)
      else parse_sparse_octal_loop cs best_value best_len)"

definition parse_sparse_octal :: "bytes \<Rightarrow> nat option" where
  "parse_sparse_octal field = parse_sparse_octal_loop field 0 0"

section \<open>The 512-byte header record (metadata.hpp, sparse.hpp)\<close>

text \<open>\<open>struct ustar_header\<close> and its GNU overlay: named regions of the block.\<close>

definition field :: "nat \<Rightarrow> nat \<Rightarrow> bytes \<Rightarrow> bytes" where
  "field off len block = take len (drop off block)"

definition h_name :: "bytes \<Rightarrow> bytes" where "h_name = field 0 100"
definition h_mode :: "bytes \<Rightarrow> bytes" where "h_mode = field 100 8"
definition h_uid :: "bytes \<Rightarrow> bytes" where "h_uid = field 108 8"
definition h_gid :: "bytes \<Rightarrow> bytes" where "h_gid = field 116 8"
definition h_size :: "bytes \<Rightarrow> bytes" where "h_size = field 124 12"
definition h_mtime :: "bytes \<Rightarrow> bytes" where "h_mtime = field 136 12"
definition h_checksum :: "bytes \<Rightarrow> bytes" where "h_checksum = field 148 8"
definition h_typeflag :: "bytes \<Rightarrow> char" where "h_typeflag block = (field 156 1 block) ! 0"
definition h_linkname :: "bytes \<Rightarrow> bytes" where "h_linkname = field 157 100"
definition h_magic :: "bytes \<Rightarrow> bytes" where "h_magic = field 257 6"
definition h_version :: "bytes \<Rightarrow> bytes" where "h_version = field 263 2"
definition h_uname :: "bytes \<Rightarrow> bytes" where "h_uname = field 265 32"
definition h_gname :: "bytes \<Rightarrow> bytes" where "h_gname = field 297 32"
definition h_devmajor :: "bytes \<Rightarrow> bytes" where "h_devmajor = field 329 8"
definition h_devminor :: "bytes \<Rightarrow> bytes" where "h_devminor = field 337 8"
definition h_prefix :: "bytes \<Rightarrow> bytes" where "h_prefix = field 345 155"

text \<open>\<open>gnu_sparse_header\<close>: \<open>sp[i]\<close> at 384 + 24 i, \<open>isextended\<close> at 480, \<open>realsize\<close> at 481.\<close>

definition h_sp_offset :: "nat \<Rightarrow> bytes \<Rightarrow> bytes" where
  "h_sp_offset i = field (384 + 24 * i) 12"
definition h_sp_numbytes :: "nat \<Rightarrow> bytes \<Rightarrow> bytes" where
  "h_sp_numbytes i = field (384 + 24 * i + 12) 12"
definition h_realsize :: "bytes \<Rightarrow> bytes" where "h_realsize = field 481 12"

text \<open>\<open>enum class entry_type : char\<close>: the type is the type-flag byte itself.\<close>

type_synonym entry_type = char

definition regular_file :: entry_type where "regular_file = CHR ''0''"
definition regular_file_old :: entry_type where "regular_file_old = NUL"
definition hard_link :: entry_type where "hard_link = CHR ''1''"
definition symbolic_link :: entry_type where "symbolic_link = CHR ''2''"
definition character_device :: entry_type where "character_device = CHR ''3''"
definition block_device :: entry_type where "block_device = CHR ''4''"
definition directory :: entry_type where "directory = CHR ''5''"
definition fifo :: entry_type where "fifo = CHR ''6''"
definition contiguous_file :: entry_type where "contiguous_file = CHR ''7''"
definition pax_extended_header :: entry_type where "pax_extended_header = CHR ''x''"
definition pax_global_header :: entry_type where "pax_global_header = CHR ''g''"
definition gnu_longname :: entry_type where "gnu_longname = CHR ''L''"
definition gnu_longlink :: entry_type where "gnu_longlink = CHR ''K''"
definition gnu_sparse :: entry_type where "gnu_sparse = CHR ''S''"
definition gnu_volhdr :: entry_type where "gnu_volhdr = CHR ''V''"
definition gnu_multivol :: entry_type where "gnu_multivol = CHR ''M''"

definition known_entry_types :: "entry_type list" where
  "known_entry_types =
     [regular_file, regular_file_old, hard_link, symbolic_link, character_device,
      block_device, directory, fifo, contiguous_file, pax_extended_header,
      pax_global_header, gnu_longname, gnu_longlink, gnu_sparse, gnu_volhdr, gnu_multivol]"

section \<open>Entry metadata (metadata.hpp)\<close>

record acl_entry =
  acl_type :: nat
  acl_id :: nat
  acl_permissions :: nat

text \<open>\<open>acl_entry::type\<close> and \<open>acl_entry::perm\<close> with their underlying values.\<close>

definition acl_user :: nat where "acl_user = 1"
definition acl_group :: nat where "acl_group = 2"
definition acl_mask :: nat where "acl_mask = 4"
definition acl_other :: nat where "acl_other = 8"
definition acl_user_obj :: nat where "acl_user_obj = 16"
definition acl_group_obj :: nat where "acl_group_obj = 32"

definition perm_read :: nat where "perm_read = 4"
definition perm_write :: nat where "perm_write = 2"
definition perm_execute :: nat where "perm_execute = 1"

text \<open>
  \<open>struct file_metadata\<close>.  \<open>mtype\<close> and \<open>msize\<close> are the fields \<open>type\<close> and
  \<open>size\<close>; the extended-attribute map, which no decision of the reader looks at, is
  left out.
\<close>

record file_metadata =
  path :: string
  mtype :: entry_type
  permissions :: nat
  owner_id :: nat
  group_id :: nat
  msize :: nat
  modification_time :: nat
  owner_name :: string
  group_name :: string
  link_target :: "string option"
  device_major :: nat
  device_minor :: nat
  sparse_info :: "sparse_metadata option"
  access_acl :: "acl_entry list"
  default_acl :: "acl_entry list"

definition default_metadata :: file_metadata where
  "default_metadata =
     \<lparr>path = [], mtype = regular_file, permissions = 256, owner_id = 0, group_id = 0,
      msize = 0, modification_time = 0, owner_name = [], group_name = [],
      link_target = None, device_major = 0, device_minor = 0, sparse_info = None,
      access_acl = [], default_acl = []\<rparr>"

definition is_regular_file :: "file_metadata \<Rightarrow> bool" where
  "is_regular_file m = (mtype m = regular_file \<or> mtype m = regular_file_old)"

definition is_gnu_longname :: "file_metadata \<Rightarrow> bool" where
  "is_gnu_longname m = (mtype m = gnu_longname)"

definition is_gnu_longlink :: "file_metadata \<Rightarrow> bool" where
  "is_gnu_longlink m = (mtype m = gnu_longlink)"

definition is_gnu_extension :: "file_metadata \<Rightarrow> bool" where
  "is_gnu_extension m =
     (is_gnu_longname m \<or> is_gnu_longlink m \<or> mtype m = gnu_sparse
      \<or> mtype m = gnu_volhdr \<or> mtype m = gnu_multivol)"

definition is_pax_header :: "file_metadata \<Rightarrow> bool" where
  "is_pax_header m = (mtype m = pax_extended_header \<or> mtype m = pax_global_header)"

section \<open>The ustar header decoder (header_parser.cpp, sparse.cpp, gnu_tar.cpp)\<close>

text \<open>
  \<open>detail::calculate_checksum\<close>: the sum of all 512 bytes as unsigned octets, the
  eight checksum bytes (148..155) taken as spaces.
\<close>

definition calculate_checksum :: "bytes \<Rightarrow> nat" where
  "calculate_checksum block =
     (let temp_block = take 148 block @ replicate 8 (CHR '' '') @ drop 156 block
      in foldl (\<lambda>sum b. (sum + of_char b) mod 2 ^ 32) 0 temp_block)"

definition is_gnu_tar_magic :: "string \<Rightarrow> bool" where
  "is_gnu_tar_magic magic = (magic = ''ustar '' \<or> magic = ''ustar'')"

text \<open>
  \<open>sparse::parse_old_sparse_header\<close>: the four overlay entries are read until one has
  no offset, no size or size zero; the real size is the \<open>realsize\<close> field when it holds
  an octal run, else the end of the last segment.
\<close>

fun old_sparse_entries :: "(bytes \<times> bytes) list \<Rightarrow> sparse_entry list" where
  "old_sparse_entries [] = []"
| "old_sparse_entries ((o_field, n_field) # rest) =
     (case (parse_sparse_octal o_field, parse_sparse_octal n_field) of
        (Some off, Some sz) \<Rightarrow>
          if sz = 0 then [] else \<lparr>offset = off, numbytes = sz\<rparr> # old_sparse_entries rest
      | _ \<Rightarrow> [])"

definition parse_old_sparse_header :: "bytes \<Rightarrow> error + sparse_metadata" where
  "parse_old_sparse_header header =
     (let segs = old_sparse_entries
                   (map (\<lambda>i. (h_sp_offset i header, h_sp_numbytes i header)) [0, 1, 2, 3])
      in case parse_sparse_octal (h_realsize header) of
           Some rs \<Rightarrow> Inr \<lparr>real_size = rs, segments = segs\<rparr>
         | None \<Rightarrow>
             if segs \<noteq> []
             then Inr \<lparr>real_size = u64 (offset (last segs) + numbytes (last segs)),
                       segments = segs\<rparr>
             else Inr \<lparr>real_size = 0, segments = segs\<rparr>)"

text \<open>
  \<open>std::filesystem::path{prefix} / name\<close> on POSIX: an absolute right operand
  replaces the path; otherwise a separator is added when the left operand has a file
  name (is not empty and does not end in a slash), and the right operand is appended.
\<close>

definition path_append :: "string \<Rightarrow> string \<Rightarrow> string" where
  "path_append p q =
     (if q \<noteq> [] \<and> hd q = CHR ''/'' then q
      else if p \<noteq> [] \<and> last p \<noteq> CHR ''/'' then p @ ''/'' @ q
      else p @ q)"

text \<open>
  \<open>detail::parse_header\<close>, in the order of the source: magic, version, checksum,
  numeric fields, path, sparse overlay, empty path, the remaining fields, and last the
  check of the entry type.  The blocks of the source that only fill in metadata are
  definitions of their own.  (The message of the last error carries the type byte as a
  number in the source; the number is left out of the message here.)
\<close>

text \<open>The block under \<open>if (is_gnu)\<close>: the GNU sparse overlay of types \<open>0\<close> and \<open>S\<close>.\<close>

definition detect_sparse :: "bytes \<Rightarrow> bool \<Rightarrow> file_metadata \<Rightarrow> file_metadata" where
  "detect_sparse block is_gnu meta =
     (let typeflag = h_typeflag block
      in if is_gnu \<and> (typeflag = regular_file \<or> typeflag = gnu_sparse)
         then (case parse_old_sparse_header block of
                 Inr sp \<Rightarrow>
                   if segments sp \<noteq> []
                   then (if typeflag = gnu_sparse
                         then meta\<lparr>sparse_info := Some sp, mtype := regular_file\<rparr>
                         else meta\<lparr>sparse_info := Some sp\<rparr>)
                   else meta
               | Inl e \<Rightarrow> meta)
         else meta)"

text \<open>The device numbers, for character and block devices only.\<close>

definition parse_device_numbers :: "bytes \<Rightarrow> file_metadata \<Rightarrow> file_metadata" where
  "parse_device_numbers block meta =
     (if mtype meta = character_device \<or> mtype meta = block_device
      then (let major = parse_octal (h_devmajor block);
                minor = parse_octal (h_devminor block);
                m' = (if isl major then meta
                      else meta\<lparr>device_major := projr major mod 2 ^ 32\<rparr>)
            in if isl minor then m'
               else m'\<lparr>device_minor := projr minor mod 2 ^ 32\<rparr>)
      else meta)"

text \<open>The link target, for symbolic and hard links only.\<close>

definition handle_links :: "bytes \<Rightarrow> file_metadata \<Rightarrow> file_metadata" where
  "handle_links block meta =
     (if mtype meta = symbolic_link \<or> mtype meta = hard_link
      then (let linkname = extract_string (h_linkname block)
            in if linkname \<noteq> [] then meta\<lparr>link_target := Some linkname\<rparr> else meta)
      else meta)"

text \<open>
  The assignments under \<open>// Set metadata fields\<close>: the type (kept when the sparse
  detection has set it), the numeric fields and the owner and group names.
\<close>

definition set_metadata_fields ::
  "bytes \<Rightarrow> nat \<Rightarrow> nat \<Rightarrow> nat \<Rightarrow> nat \<Rightarrow> nat \<Rightarrow> file_metadata \<Rightarrow> file_metadata" where
  "set_metadata_fields block mode uid gid sz mtime meta =
     (if sparse_info meta \<noteq> None then meta else meta\<lparr>mtype := h_typeflag block\<rparr>)
       \<lparr>permissions := mode mod 4096,
        owner_id := uid mod 2 ^ 32,
        group_id := gid mod 2 ^ 32,
        msize := sz,
        modification_time := mtime,
        owner_name := extract_string (h_uname block),
        group_name := extract_string (h_gname block)\<rparr>"

definition header_path :: "bytes \<Rightarrow> string" where
  "header_path block =
     (let prefix = extract_string (h_prefix block);
          name = extract_string (h_name block)
      in if prefix \<noteq> [] then path_append prefix name else name)"

definition parse_header :: "bytes \<Rightarrow> error + file_metadata" where
  "parse_header block =
     (let magic = extract_string (h_magic block);
          is_ustar = (magic = ''ustar'');
          is_gnu = is_gnu_tar_magic magic
      in if \<not> is_ustar \<and> \<not> is_gnu then
           Inl (invalid_header,
                ''Not a POSIX ustar or GNU tar archive (magic: '' @ [CHR 0x27] @ magic
                  @ [CHR 0x27] @ '')'')
         else
         let version = extract_string (h_version block)
         in if version \<noteq> ''00'' \<and> version \<noteq> '' '' then
              Inl (invalid_header, ''Unsupported tar version'')
            else
            case parse_octal (h_checksum block) of
              Inl e \<Rightarrow> Inl e
            | Inr stored_checksum \<Rightarrow>
                if calculate_checksum block \<noteq> stored_checksum then
                  Inl (corrupt_archive, ''Header checksum mismatch'')
                else
                let mode = parse_octal (h_mode block);
                    uid = parse_octal (h_uid block);
                    gid = parse_octal (h_gid block);
                    sz = parse_octal (h_size block);
                    mtime = parse_octal (h_mtime block)
                in if isl mode \<or> isl uid \<or> isl gid \<or> isl sz \<or> isl mtime then
                     Inl (invalid_header, ''Failed to parse numeric fields'')
                   else
                   let meta1 = detect_sparse block is_gnu
                                 (default_metadata\<lparr>path := header_path block\<rparr>)
                   in if path meta1 = [] then Inl (invalid_header, ''Empty file path'')
                      else
                      let meta2 = handle_links block
                                    (parse_device_numbers block
                                       (set_metadata_fields block (projr mode) (projr uid)
                                          (projr gid) (projr sz) (projr mtime) meta1))
                      in if mtype meta2 \<in> set known_entry_types then Inr meta2
                         else Inl (unsupported_feature, ''Unsupported entry type''))"

section \<open>GNU long-name and long-link records (gnu_tar.hpp, gnu_tar.cpp)\<close>

record gnu_extension_data =
  longname :: string
  longlink :: string

definition has_longname :: "gnu_extension_data \<Rightarrow> bool" where
  "has_longname ext = (longname ext \<noteq> [])"

definition has_longlink :: "gnu_extension_data \<Rightarrow> bool" where
  "has_longlink ext = (longlink ext \<noteq> [])"

definition gnu_clear :: gnu_extension_data where
  "gnu_clear = \<lparr>longname = [], longlink = []\<rparr>"

text \<open>
  The read loop of \<open>gnu::read_gnu_extension_data\<close>: at most one block per read, an
  empty read is an error, the bytes read are appended to \<open>result\<close>.
\<close>

function read_extension_loop ::
  "nat \<Rightarrow> string \<Rightarrow> mmap_stream \<Rightarrow> (error + string) \<times> mmap_stream" where
  "read_extension_loop remaining result s =
     (if remaining > 0 then
        (case stream_read (min remaining BLOCK_SIZE) s of
           (Inl e, s') \<Rightarrow> (Inl e, s')
         | (Inr buffer, s') \<Rightarrow>
             if length buffer = 0 then
               (Inl (corrupt_archive,
                     ''Unexpected end of stream while reading GNU extension data''), s')
             else read_extension_loop (remaining - length buffer) (result @ buffer) s')
      else (Inr result, s))"
  by pat_completeness auto
termination
  by (relation "measure (\<lambda>(remaining, result, s). remaining)") auto

text \<open>The final \<open>while (!result.empty() && result.back() == 0) result.pop_back()\<close>.\<close>

definition strip_trailing_nuls :: "string \<Rightarrow> string" where
  "strip_trailing_nuls result = rev (dropWhile (\<lambda>c. c = NUL) (rev result))"

definition padding_of :: "nat \<Rightarrow> nat" where
  "padding_of data_size = (BLOCK_SIZE - data_size mod BLOCK_SIZE) mod BLOCK_SIZE"

definition read_gnu_extension_data ::
  "mmap_stream \<Rightarrow> nat \<Rightarrow> (error + string) \<times> mmap_stream" where
  "read_gnu_extension_data s data_size =
     (if data_size = 0 then (Inr [], s)
      else
        case read_extension_loop data_size [] s of
          (Inl e, s1) \<Rightarrow> (Inl e, s1)
        | (Inr result, s1) \<Rightarrow>
            if padding_of data_size > 0 then
              (case stream_skip (padding_of data_size) s1 of
                 (Inl e, s2) \<Rightarrow> (Inl e, s2)
               | (Inr u, s2) \<Rightarrow> (Inr (strip_trailing_nuls result), s2))
            else (Inr (strip_trailing_nuls result), s1))"

definition apply_gnu_extensions :: "file_metadata \<Rightarrow> gnu_extension_data \<Rightarrow> file_metadata" where
  "apply_gnu_extensions metadata extensions =
     (let m1 = (if has_longname extensions then metadata\<lparr>path := longname extensions\<rparr>
                else metadata)
      in if has_longlink extensions then m1\<lparr>link_target := Some (longlink extensions)\<rparr>
         else m1)"

section \<open>PAX records and ACL text (pax_parser.cpp)\<close>

text \<open>
  \<open>std::map<std::string, std::string>\<close> is an association list with one entry per
  key; \<open>result[key] = value\<close> is \<open>AList.update\<close>, \<open>find\<close> is \<open>map_of\<close>.

  \<open>pax::parse_pax_headers\<close> works on pointers into the span it is given, so the span
  is its first address and its bytes.  In \<open>parse_pax_loop\<close>, \<open>pos\<close> is the address of
  the first byte not yet parsed and \<open>rest\<close> are the bytes from there to the end of the
  span.  \<open>record_start + length\<close> is an addition on 64-bit addresses: a record length
  that carries it past \<open>2 ^ 64\<close> gives a \<open>record_end\<close> below \<open>record_start\<close>, which
  passes the test against \<open>end\<close>.  Whenever \<open>value_end\<close> is below \<open>key_start\<close> (a
  length that wraps, or one smaller than its own length field) \<open>std::find\<close> is given an
  inverted range, which is undefined behaviour; its search loop then runs no step and
  returns its second argument, so the record is refused for its missing separator.
\<close>

type_synonym address = nat

function parse_pax_loop ::
  "address \<Rightarrow> bytes \<Rightarrow> (string \<times> string) list \<Rightarrow> error + (string \<times> string) list" where
  "parse_pax_loop pos rest result =
     (if rest = [] \<or> hd rest = NUL then Inr result
      else
        let len_digits = takeWhile is_digit_char rest;
            after = drop (length len_digits) rest
        in if len_digits = [] \<or> after = [] \<or> hd after \<noteq> CHR '' '' then
             Inl (invalid_header,
                  ''Invalid PAX header length field, found: '' @ [CHR 0x27] @ len_digits
                    @ [CHR 0x27])
           else
             case from_chars_unsigned 64 len_digits of
               None \<Rightarrow> Inl (invalid_header, ''Failed to parse PAX header length'')
             | Some len \<Rightarrow>
                 if len = 0 then
                   Inl (invalid_header, ''PAX header record length cannot be zero'')
                 else
                   let record_end = u64 (pos + len);
                       end_of_data = pos + length rest
                   in if record_end > end_of_data then
                        Inl (corrupt_archive, ''PAX header record extends beyond data'')
                      else
                        let key_start = pos + (length len_digits + 1);
                            value_end =
                              (if record_end > key_start
                                  \<and> rest ! (record_end - 1 - pos) = CHR 0x0A
                               then record_end - 1 else record_end);
                            body = take (value_end - key_start) (drop (key_start - pos) rest);
                            key = takeWhile (\<lambda>c. c \<noteq> CHR ''='') body
                        in if length key = length body then
                             Inl (invalid_header, ''PAX header missing '' @ [CHR 0x27] @ ''=''
                                    @ [CHR 0x27] @ '' separator'')
                           else
                             parse_pax_loop record_end (drop (record_end - pos) rest)
                               (AList.update key (drop (length key + 1) body) result))"
  by pat_completeness auto
termination
proof (relation "measure (\<lambda>(pos, rest, result). length rest)")
  show "wf (measure (\<lambda>(pos, rest, result). length rest))" by simp
next
  fix pos :: address and rest :: bytes and result :: "(string \<times> string) list"
    and len_digits after len record_end end_of_data key_start value_end body key
  assume ne: "\<not> (rest = [] \<or> hd rest = NUL)"
    and re: "record_end = u64 (pos + len)"
    and ks: "key_start = pos + (length len_digits + 1)"
    and ve: "value_end = (if record_end > key_start
                            \<and> rest ! (record_end - 1 - pos) = CHR 0x0A
                          then record_end - 1 else record_end)"
    and bd: "body = take (value_end - key_start) (drop (key_start - pos) rest)"
    and ky: "key = takeWhile (\<lambda>c. c \<noteq> CHR ''='') body"
    and nk: "length key \<noteq> length body"
  from nk ky have "body \<noteq> []" by auto
  with bd have "key_start < value_end" by (cases "key_start < value_end") simp_all
  with ve ks have "pos < record_end" by (simp split: if_splits)
  moreover from ne have "0 < length rest" by simp
  ultimately have "length rest - (record_end - pos) < length rest" by linarith
  then show "((record_end, drop (record_end - pos) rest,
               AList.update key (drop (length key + 1) body) result),
              (pos, rest, result))
             \<in> measure (\<lambda>(pos, rest, result). length rest)"
    by simp
qed

definition parse_pax_headers ::
  "address \<Rightarrow> bytes \<Rightarrow> error + (string \<times> string) list" where
  "parse_pax_headers start pax_data = parse_pax_loop start pax_data []"

definition has_gnu_sparse_markers :: "(string \<times> string) list \<Rightarrow> bool" where
  "has_gnu_sparse_markers headers =
     (map_of headers ''GNU.sparse.major'' \<noteq> None
      \<or> map_of headers ''GNU.sparse.minor'' \<noteq> None
      \<or> map_of headers ''GNU.sparse.map'' \<noteq> None)"

definition int_header :: "(string \<times> string) list \<Rightarrow> string \<Rightarrow> int" where
  "int_header headers key =
     (case map_of headers key of
        None \<Rightarrow> 0
      | Some v \<Rightarrow> (case from_chars_int v of None \<Rightarrow> 0 | Some n \<Rightarrow> n))"

definition get_gnu_sparse_version :: "(string \<times> string) list \<Rightarrow> int \<times> int" where
  "get_gnu_sparse_version headers =
     (int_header headers ''GNU.sparse.major'', int_header headers ''GNU.sparse.minor'')"

text \<open>
  \<open>std::getline(stream, str, delim)\<close> on the unread rest of a string stream: it fails
  when nothing is left; otherwise it takes the characters before the first delimiter and
  drops that delimiter.
\<close>

definition getline :: "char \<Rightarrow> string \<Rightarrow> (string \<times> string) option" where
  "getline delim rest =
     (if rest = [] then None
      else Some (takeWhile (\<lambda>c. c \<noteq> delim) rest,
                 drop 1 (dropWhile (\<lambda>c. c \<noteq> delim) rest)))"

definition is_blank :: "char \<Rightarrow> bool" where
  "is_blank c = (c = CHR '' '' \<or> c = CHR 0x09)"

text \<open>The two \<open>erase\<close> calls that trim blanks and tabs from both ends.\<close>

definition trim :: "string \<Rightarrow> string" where
  "trim entry_str = rev (dropWhile is_blank (rev (dropWhile is_blank entry_str)))"

text \<open>
  The body of the loop of \<open>pax::parse_acl_text\<close> for one non-empty entry: three
  \<open>getline\<close> calls (the last one reads to the end of the line), the type, the id, and
  the permissions.  Only the length of the permission part is checked; each position
  sets its bit when it holds its letter.
\<close>

definition acl_type_of :: "string \<Rightarrow> string \<Rightarrow> nat" where
  "acl_type_of type_str id_str =
     (if type_str = ''user'' then (if id_str = [] then acl_user_obj else acl_user)
      else if type_str = ''group'' then (if id_str = [] then acl_group_obj else acl_group)
      else if type_str = ''mask'' then acl_mask
      else acl_other)"

definition permission_bits :: "string \<Rightarrow> nat" where
  "permission_bits perm_str =
     (if perm_str ! 0 = CHR ''r'' then perm_read else 0)
     + (if perm_str ! 1 = CHR ''w'' then perm_write else 0)
     + (if perm_str ! 2 = CHR ''x'' then perm_execute else 0)"

definition parse_acl_entry :: "string \<Rightarrow> error + acl_entry" where
  "parse_acl_entry entry_str =
     (case getline (CHR '':'') entry_str of
        None \<Rightarrow> Inl (invalid_header, ''Invalid ACL entry format: '' @ entry_str)
      | Some (type_str, rest1) \<Rightarrow>
      (case getline (CHR '':'') rest1 of
        None \<Rightarrow> Inl (invalid_header, ''Invalid ACL entry format: '' @ entry_str)
      | Some (id_str, rest2) \<Rightarrow>
      (case getline (CHR 0x0A) rest2 of
        None \<Rightarrow> Inl (invalid_header, ''Invalid ACL entry format: '' @ entry_str)
      | Some (perm_str, rest3) \<Rightarrow>
          if type_str \<noteq> ''user'' \<and> type_str \<noteq> ''group'' \<and> type_str \<noteq> ''mask''
             \<and> type_str \<noteq> ''other'' then
            Inl (invalid_header, ''Unknown ACL entry type: '' @ type_str)
          else if id_str \<noteq> [] \<and> from_chars_unsigned 32 id_str = None then
            Inl (invalid_header, ''Invalid ACL ID: '' @ id_str)
          else if length perm_str \<noteq> 3 then
            Inl (invalid_header, ''Invalid ACL permission format: '' @ perm_str)
          else
            Inr \<lparr>acl_type = acl_type_of type_str id_str,
                 acl_id = (if id_str = [] then 0 else the (from_chars_unsigned 32 id_str)),
                 acl_permissions = permission_bits perm_str\<rparr>)))"

lemma getline_shorter:
  "getline d rest = Some (a, b) \<Longrightarrow> length b < length rest"
proof -
  assume g: "getline d rest = Some (a, b)"
  then have "rest \<noteq> []" and b: "b = drop 1 (dropWhile (\<lambda>c. c \<noteq> d) rest)"
    by (auto simp: getline_def split: if_splits)
  have "length (dropWhile (\<lambda>c. c \<noteq> d) rest) \<le> length rest"
    by (rule length_dropWhile_le)
  with \<open>rest \<noteq> []\<close> b show ?thesis
    by (cases rest) auto
qed

text \<open>
  The loop \<open>while (std::getline(stream, entry_str, ','))\<close>: entries that are empty
  after trimming are skipped, the first bad entry ends the parse with its error.
\<close>

function parse_acl_loop :: "string \<Rightarrow> acl_entry list \<Rightarrow> error + acl_entry list" where
  "parse_acl_loop rest result =
     (case getline (CHR '','') rest of
        None \<Rightarrow> Inr result
      | Some (entry_str, rest') \<Rightarrow>
          if trim entry_str = [] then parse_acl_loop rest' result
          else (case parse_acl_entry (trim entry_str) of
                  Inl e \<Rightarrow> Inl e
                | Inr entry \<Rightarrow> parse_acl_loop rest' (result @ [entry])))"
  by pat_completeness auto
termination
  by (relation "measure (\<lambda>(rest, result). length rest)") (auto dest: getline_shorter)

definition parse_acl_text :: "string \<Rightarrow> error + acl_entry list" where
  "parse_acl_text acl_text = parse_acl_loop acl_text []"

text \<open>\<open>pax::extract_acls\<close>: a list that does not parse is ignored.\<close>

definition acl_of_header :: "(string \<times> string) list \<Rightarrow> string \<Rightarrow> acl_entry list" where
  "acl_of_header headers key =
     (case map_of headers key of
        None \<Rightarrow> []
      | Some v \<Rightarrow> (case parse_acl_text v of Inl e \<Rightarrow> [] | Inr acl \<Rightarrow> acl))"

definition extract_acls :: "(string \<times> string) list \<Rightarrow> acl_entry list \<times> acl_entry list" where
  "extract_acls headers =
     (acl_of_header headers ''SCHILY.acl.access'', acl_of_header headers ''SCHILY.acl.default'')"

section \<open>Sparse maps read from the stream (sparse.cpp)\<close>

text \<open>\<open>data.find("\n\n")\<close> and \<open>data.find('\0')\<close>: the first index, if any.\<close>

fun find_double_newline :: "bytes \<Rightarrow> nat option" where
  "find_double_newline (a # b # cs) =
     (if a = CHR 0x0A \<and> b = CHR 0x0A then Some 0
      else map_option Suc (find_double_newline (b # cs)))"
| "find_double_newline cs = None"

definition find_nul :: "bytes \<Rightarrow> nat option" where
  "find_nul bs = (if NUL \<in> set bs then Some (length (takeWhile (\<lambda>c. c \<noteq> NUL) bs)) else None)"

definition is_map_space :: "char \<Rightarrow> bool" where
  "is_map_space c = (c = CHR '' '' \<or> c = CHR 0x0A \<or> c = CHR 0x09)"

text \<open>
  The number loop of \<open>sparse::parse_sparse_1_0_data_map\<close>: skip blanks and newlines,
  read a run of digits, stop at the first character that is neither.
\<close>

function sparse_numbers_loop :: "bytes \<Rightarrow> nat list \<Rightarrow> error + nat list" where
  "sparse_numbers_loop map_data numbers =
     (let rest = dropWhile is_map_space map_data
      in if rest = [] then Inr numbers
         else
           let ds = takeWhile is_digit_char rest
           in if ds = [] then Inr numbers
              else (case from_chars_unsigned 64 ds of
                      None \<Rightarrow> Inl (invalid_header, ''Invalid number in sparse map data block'')
                    | Some number \<Rightarrow>
                        sparse_numbers_loop (drop (length ds) rest) (numbers @ [number])))"
  by pat_completeness auto
termination
proof (relation "measure (\<lambda>(map_data, numbers). length map_data)")
  show "wf (measure (\<lambda>(map_data, numbers). length map_data))" by simp
next
  fix map_data :: bytes and numbers :: "nat list" and x xa x2
  assume "x = dropWhile is_map_space map_data" and "x \<noteq> []"
    and "xa = takeWhile is_digit_char x" and "xa \<noteq> []"
  then have "length (drop (length xa) x) < length x"
    by (cases xa) auto
  moreover have "length x \<le> length map_data"
    using \<open>x = dropWhile is_map_space map_data\<close> by (simp add: length_dropWhile_le)
  ultimately show "((drop (length xa) x, numbers @ [x2]), map_data, numbers)
      \<in> measure (\<lambda>(map_data, numbers). length map_data)"
    by simp
qed

text \<open>
  The pair loop \<open>for (i = 1; i + 1 < numbers.size(); i += 2)\<close> over the numbers after
  the first one; the sums and the product are \<open>uint64_t\<close>.
\<close>

fun sparse_pairs_loop :: "nat \<Rightarrow> nat list \<Rightarrow> sparse_entry list" where
  "sparse_pairs_loop rs (off # sz # rest) =
     (if sz = 0 \<or> sz > rs \<or> u64 (off + sz) > u64 (rs * 2) then []
      else \<lparr>offset = off, numbytes = sz\<rparr> # sparse_pairs_loop rs rest)"
| "sparse_pairs_loop rs rest = []"

definition parse_sparse_1_0_data_map ::
  "mmap_stream \<Rightarrow> nat \<Rightarrow> (error + sparse_metadata) \<times> mmap_stream" where
  "parse_sparse_1_0_data_map s rs =
     (case stream_read 512 s of
        (Inl e, s') \<Rightarrow> (Inl e, s')
      | (Inr block, s') \<Rightarrow>
          if length block = 0 then (Inr \<lparr>real_size = rs, segments = []\<rparr>, s')
          else
            let map_end = (case find_double_newline block of
                             Some i \<Rightarrow> i
                           | None \<Rightarrow> (case find_nul block of
                                        Some i \<Rightarrow> i
                                      | None \<Rightarrow> length block));
                map_data = take map_end block
            in case sparse_numbers_loop map_data [] of
                 Inl e \<Rightarrow> (Inl e, s')
               | Inr numbers \<Rightarrow>
                   (Inr \<lparr>real_size = rs,
                         segments = (if length numbers \<ge> 4
                                     then sparse_pairs_loop rs (drop 1 numbers) else [])\<rparr>,
                    s'))"

text \<open>
  \<open>sparse::read_sparse_map_continuation\<close>: 21 entries per extension block, read up to
  the first entry without offset, without size or of size zero; the byte at 504 says
  whether another block follows.
\<close>

function read_sparse_map_continuation_loop ::
  "sparse_entry list \<Rightarrow> mmap_stream \<Rightarrow> (error + sparse_entry list) \<times> mmap_stream" where
  "read_sparse_map_continuation_loop result s =
     (case stream_read 512 s of
        (Inl e, s') \<Rightarrow> (Inl e, s')
      | (Inr block, s') \<Rightarrow>
          if length block \<noteq> 512 then
            (Inl (corrupt_archive, ''Incomplete sparse extension block''), s')
          else
            let result' = result @ old_sparse_entries
                  (map (\<lambda>i. (field (i * 24) 12 block, field (i * 24 + 12) 12 block)) [0..<21])
            in if block ! 504 \<noteq> CHR ''1'' then (Inr result', s')
               else read_sparse_map_continuation_loop result' s')"
  by pat_completeness auto
termination
  by (relation "measure (\<lambda>(result, s). length (data s) - position s)")
     (auto simp: stream_read_def Let_def min_def split: if_splits)

definition read_sparse_map_continuation ::
  "mmap_stream \<Rightarrow> (error + sparse_entry list) \<times> mmap_stream" where
  "read_sparse_map_continuation s = read_sparse_map_continuation_loop [] s"

section \<open>The archive reader (archive_reader.hpp, archive_reader.cpp)\<close>

text \<open>
  An \<open>archive_entry\<close> is its metadata plus a data reader; the reader is code (the
  sparse reader when the metadata has a sparse descriptor, the plain one otherwise), so
  the entry is represented by its metadata, and the readers are functions on the state
  of the \<open>archive_reader\<close> they point into.
\<close>

type_synonym archive_entry = file_metadata

record archive_reader =
  stream :: mmap_stream
  current_entry :: "archive_entry option"
  current_entry_data_remaining :: nat
  current_entry_data_consumed :: nat
  finished :: bool
  pending_gnu_extensions :: gnu_extension_data
  pending_sparse_info :: "sparse_metadata option"
  pending_pax_headers :: "(string \<times> string) list"
  needs_sparse_1_0_processing :: bool

definition new_reader :: "mmap_stream \<Rightarrow> archive_reader" where
  "new_reader s =
     \<lparr>stream = s, current_entry = None, current_entry_data_remaining = 0,
      current_entry_data_consumed = 0, finished = False,
      pending_gnu_extensions = gnu_clear, pending_sparse_info = None,
      pending_pax_headers = [], needs_sparse_1_0_processing = False\<rparr>"

definition read_block :: "mmap_stream \<Rightarrow> (error + bytes) \<times> mmap_stream" where
  "read_block s =
     (case stream_read BLOCK_SIZE s of
        (Inl e, s') \<Rightarrow> (Inl e, s')
      | (Inr block, s') \<Rightarrow>
          if length block \<noteq> BLOCK_SIZE then
            (if length block = 0 \<and> at_end s'
             then (Inl (end_of_archive, ''Unexpected end of archive''), s')
             else (Inl (corrupt_archive, ''Incomplete block read''), s'))
          else (Inr block, s'))"

definition skip_padding :: "nat \<Rightarrow> mmap_stream \<Rightarrow> (error + unit) \<times> mmap_stream" where
  "skip_padding data_size s =
     (if padding_of data_size > 0 then stream_skip (padding_of data_size) s
      else (Inr (), s))"

text \<open>
  \<open>archive_reader::skip_current_entry_data\<close>: the unread rest of the payload, then
  the padding, which is computed from the size of the current entry.
\<close>

definition skip_current_entry_data :: "archive_reader \<Rightarrow> (error + unit) \<times> archive_reader" where
  "skip_current_entry_data r =
     (let total_entry_size = (case current_entry r of Some e \<Rightarrow> msize e | None \<Rightarrow> 0);
          data_to_skip = current_entry_data_remaining r;
          (res1, s1) = (if data_to_skip > 0 then stream_skip data_to_skip (stream r)
                        else (Inr (), stream r))
      in case res1 of
           Inl e \<Rightarrow> (Inl e, r\<lparr>stream := s1\<rparr>)
         | Inr u \<Rightarrow>
             let (res2, s2) = (if total_entry_size > 0 then skip_padding total_entry_size s1
                               else (Inr (), s1))
             in case res2 of
                  Inl e \<Rightarrow> (Inl e, r\<lparr>stream := s2\<rparr>)
                | Inr u \<Rightarrow>
                    (Inr (), r\<lparr>stream := s2, current_entry_data_remaining := 0,
                                current_entry_data_consumed := 0\<rparr>))"

definition process_sparse_file ::
  "file_metadata \<Rightarrow> archive_reader \<Rightarrow> (error + unit) \<times> archive_reader" where
  "process_sparse_file meta r =
     (case sparse_info meta of
        None \<Rightarrow> (Inl (invalid_header, ''Sparse file entry without sparse info''), r)
      | Some sp \<Rightarrow>
          (case read_sparse_map_continuation (stream r) of
             (Inl e, s') \<Rightarrow> (Inl e, r\<lparr>stream := s'\<rparr>)
           | (Inr extended_segments, s') \<Rightarrow>
               let segs = segments sp @ extended_segments;
                   rs = (if segs \<noteq> [] then u64 (offset (last segs) + numbytes (last segs))
                         else real_size sp)
               in (Inr (), r\<lparr>stream := s',
                               pending_sparse_info :=
                                 Some \<lparr>real_size = rs, segments = segs\<rparr>\<rparr>)))"

definition process_gnu_extension ::
  "file_metadata \<Rightarrow> archive_reader \<Rightarrow> (error + bool) \<times> archive_reader" where
  "process_gnu_extension meta r =
     (if is_gnu_longname meta then
        (case read_gnu_extension_data (stream r) (msize meta) of
           (Inl e, s') \<Rightarrow> (Inl e, r\<lparr>stream := s'\<rparr>)
         | (Inr name, s') \<Rightarrow>
             (Inr True, r\<lparr>stream := s',
                            pending_gnu_extensions :=
                              (pending_gnu_extensions r)\<lparr>longname := name\<rparr>\<rparr>))
      else if is_gnu_longlink meta then
        (case read_gnu_extension_data (stream r) (msize meta) of
           (Inl e, s') \<Rightarrow> (Inl e, r\<lparr>stream := s'\<rparr>)
         | (Inr name, s') \<Rightarrow>
             (Inr True, r\<lparr>stream := s',
                            pending_gnu_extensions :=
                              (pending_gnu_extensions r)\<lparr>longlink := name\<rparr>\<rparr>))
      else if mtype meta = gnu_sparse then
        (case process_sparse_file meta r of
           (Inl e, r') \<Rightarrow> (Inl e, r')
         | (Inr u, r') \<Rightarrow> (Inr True, r'))
      else if mtype meta = gnu_volhdr \<or> mtype meta = gnu_multivol then
        (case stream_skip (msize meta) (stream r) of
           (Inl e, s') \<Rightarrow> (Inl e, r\<lparr>stream := s'\<rparr>)
         | (Inr u, s') \<Rightarrow>
             (case skip_padding (msize meta) s' of
                (Inl e, s'') \<Rightarrow> (Inl e, r\<lparr>stream := s''\<rparr>)
              | (Inr u, s'') \<Rightarrow> (Inr True, r\<lparr>stream := s''\<rparr>)))
      else (Inr False, r))"

text \<open>
  \<open>archive_reader::process_pax_header\<close>.  The data of an \<open>x\<close> record are read into a
  \<open>std::vector\<close>; \<open>buf\<close> is the address of its storage, which the allocator chooses
  and which only \<open>parse_pax_headers\<close> looks at.  The parsed records replace the pending
  ones.
\<close>

definition process_pax_header ::
  "address \<Rightarrow> file_metadata \<Rightarrow> archive_reader \<Rightarrow> (error + bool) \<times> archive_reader" where
  "process_pax_header buf meta r =
     (if mtype meta = pax_extended_header then
        (case stream_read (msize meta) (stream r) of
           (Inl e, s') \<Rightarrow> (Inl e, r\<lparr>stream := s'\<rparr>)
         | (Inr pax_data, s') \<Rightarrow>
             if length pax_data \<noteq> msize meta then
               (Inl (corrupt_archive, ''Incomplete PAX header data''), r\<lparr>stream := s'\<rparr>)
             else
               (case parse_pax_headers buf pax_data of
                  Inl e \<Rightarrow> (Inl e, r\<lparr>stream := s'\<rparr>)
                | Inr headers \<Rightarrow>
                    (case skip_padding (msize meta) s' of
                       (Inl e, s'') \<Rightarrow>
                         (Inl e, r\<lparr>stream := s'', pending_pax_headers := headers\<rparr>)
                     | (Inr u, s'') \<Rightarrow>
                         (Inr True, r\<lparr>stream := s'', pending_pax_headers := headers\<rparr>))))
      else if mtype meta = pax_global_header then
        (case stream_skip (msize meta) (stream r) of
           (Inl e, s') \<Rightarrow> (Inl e, r\<lparr>stream := s'\<rparr>)
         | (Inr u, s') \<Rightarrow>
             (case skip_padding (msize meta) s' of
                (Inl e, s'') \<Rightarrow> (Inl e, r\<lparr>stream := s''\<rparr>)
              | (Inr u, s'') \<Rightarrow> (Inr True, r\<lparr>stream := s''\<rparr>)))
      else (Inr False, r))"

text \<open>
  The PAX part of \<open>next_entry\<close> (the block under
  \<open>if (!pending_pax_headers_.empty())\<close>): \<open>path\<close>, then \<open>size\<close> when
  \<open>std::from_chars\<close> accepts it, then the mark for GNU sparse 1.0, then the ACLs.
\<close>

definition apply_pax_headers ::
  "(string \<times> string) list \<Rightarrow> file_metadata \<Rightarrow> file_metadata \<times> bool" where
  "apply_pax_headers headers m0 =
     (let m1 = (case map_of headers ''path'' of Some p \<Rightarrow> m0\<lparr>path := p\<rparr> | None \<Rightarrow> m0);
          m2 = (case map_of headers ''size'' of
                  Some v \<Rightarrow> (case from_chars_unsigned 64 v of
                               Some pax_size \<Rightarrow> m1\<lparr>msize := pax_size\<rparr>
                             | None \<Rightarrow> m1)
                | None \<Rightarrow> m1);
          sparse_1_0 = (has_gnu_sparse_markers headers
                        \<and> get_gnu_sparse_version headers = (1, 0));
          rs = (case map_of headers ''GNU.sparse.realsize'' of
                  Some v \<Rightarrow> (case from_chars_unsigned 64 v of
                               Some n \<Rightarrow> n
                             | None \<Rightarrow> msize m2)
                | None \<Rightarrow> msize m2);
          m3 = (if sparse_1_0
                then m2\<lparr>msize := rs, sparse_info := Some \<lparr>real_size = rs, segments = []\<rparr>\<rparr>
                else m2);
          m4 = m3\<lparr>access_acl := fst (extract_acls headers),
                    default_acl := snd (extract_acls headers)\<rparr>
      in (m4, sparse_1_0))"

text \<open>
  The rest of \<open>next_entry\<close> once a header that is no extension record is decoded,
  block by block: the pending PAX records, a pending old-format sparse map, the sparse
  1.0 map read from the stream (an error of that read is dropped), and the payload
  counters.
\<close>

definition apply_pending_pax ::
  "file_metadata \<Rightarrow> archive_reader \<Rightarrow> file_metadata \<times> archive_reader" where
  "apply_pending_pax fm r =
     (if pending_pax_headers r \<noteq> [] then
        (let (m, sparse_1_0) = apply_pax_headers (pending_pax_headers r) fm
         in (m, r\<lparr>pending_pax_headers := [],
                  needs_sparse_1_0_processing :=
                    (needs_sparse_1_0_processing r \<or> sparse_1_0)\<rparr>))
      else (fm, r))"

definition apply_pending_sparse ::
  "file_metadata \<Rightarrow> archive_reader \<Rightarrow> file_metadata \<times> archive_reader" where
  "apply_pending_sparse fm r =
     (if pending_sparse_info r \<noteq> None \<and> is_regular_file fm
      then (fm\<lparr>sparse_info := pending_sparse_info r\<rparr>, r\<lparr>pending_sparse_info := None\<rparr>)
      else (fm, r))"

definition process_sparse_1_0 ::
  "file_metadata \<Rightarrow> archive_reader \<Rightarrow> file_metadata \<times> archive_reader" where
  "process_sparse_1_0 fm r =
     (if needs_sparse_1_0_processing r \<and> sparse_info fm \<noteq> None then
        (case parse_sparse_1_0_data_map (stream r) (real_size (the (sparse_info fm))) of
           (Inr sp, s') \<Rightarrow>
             (fm\<lparr>sparse_info := Some sp\<rparr>,
              r\<lparr>stream := s', needs_sparse_1_0_processing := False\<rparr>)
         | (Inl e, s') \<Rightarrow>
             (fm, r\<lparr>stream := s', needs_sparse_1_0_processing := False\<rparr>))
      else (fm, r))"

definition emit_entry :: "file_metadata \<Rightarrow> archive_reader \<Rightarrow> archive_entry \<times> archive_reader" where
  "emit_entry metadata_result r =
     (let fm1 = apply_gnu_extensions metadata_result (pending_gnu_extensions r);
          (fm2, r2) = apply_pending_pax fm1 (r\<lparr>pending_gnu_extensions := gnu_clear\<rparr>);
          (fm3, r3) = apply_pending_sparse fm2 r2;
          (fm4, r4) = process_sparse_1_0 fm3 r3;
          (fm5, remaining) =
            (case sparse_info fm4 of
               Some sp \<Rightarrow> (fm4\<lparr>msize := real_size sp\<rparr>, total_data_size sp)
             | None \<Rightarrow> (fm4, msize fm4))
      in (fm5, r4\<lparr>current_entry_data_remaining := remaining,
                   current_entry_data_consumed := 0,
                   current_entry := Some fm5\<rparr>))"

text \<open>
  \<open>archive_reader::next_entry\<close> calls itself after each extension record.  One pass
  through its body is \<open>next_entry_step\<close>: it is done with the value \<open>next_entry\<close>
  returns, or it asks for another pass.  \<open>buf\<close> is the address \<open>process_pax_header\<close>
  gets for its buffer.
\<close>

datatype step = Done "error + archive_entry option" | Again

definition next_entry_step :: "address \<Rightarrow> archive_reader \<Rightarrow> step \<times> archive_reader" where
  "next_entry_step buf r =
     (if finished r then (Done (Inr None), r)
      else
        case skip_current_entry_data r of
          (Inl e, r1) \<Rightarrow> (Done (Inl e), r1)
        | (Inr u, r1) \<Rightarrow>
            let r2 = r1\<lparr>current_entry := None, current_entry_data_remaining := 0,
                        current_entry_data_consumed := 0\<rparr>
            in case read_block (stream r2) of
                 (Inl e, s3) \<Rightarrow>
                   if fst e = end_of_archive
                   then (Done (Inr None), r2\<lparr>stream := s3, finished := True\<rparr>)
                   else (Done (Inl e), r2\<lparr>stream := s3\<rparr>)
               | (Inr block, s3) \<Rightarrow>
                   let r3 = r2\<lparr>stream := s3\<rparr>
                   in if is_zero_block block then
                        (case read_block s3 of
                           (Inr second_block, s4) \<Rightarrow>
                             if is_zero_block second_block
                             then (Done (Inr None), r3\<lparr>stream := s4, finished := True\<rparr>)
                             else (Done (Inl (corrupt_archive,
                                              ''Single zero block in archive'')),
                                   r3\<lparr>stream := s4\<rparr>)
                         | (Inl e, s4) \<Rightarrow>
                             (Done (Inl (corrupt_archive, ''Single zero block in archive'')),
                              r3\<lparr>stream := s4\<rparr>))
                      else
                        case parse_header block of
                          Inl e \<Rightarrow> (Done (Inl e), r3)
                        | Inr metadata_result \<Rightarrow>
                            let (gnu_res, r4) =
                                  (if is_gnu_extension metadata_result
                                   then process_gnu_extension metadata_result r3
                                   else (Inr False, r3))
                            in case gnu_res of
                                 Inl e \<Rightarrow> (Done (Inl e), r4)
                               | Inr True \<Rightarrow> (Again, r4)
                               | Inr False \<Rightarrow>
                                   let (pax_res, r5) =
                                         (if is_pax_header metadata_result
                                          then process_pax_header buf metadata_result r4
                                          else (Inr False, r4))
                                   in case pax_res of
                                        Inl e \<Rightarrow> (Done (Inl e), r5)
                                      | Inr True \<Rightarrow> (Again, r5)
                                      | Inr False \<Rightarrow>
                                          (case emit_entry metadata_result r5 of
                                             (entry, r6) \<Rightarrow> (Done (Inr (Some entry)), r6)))"

partial_function (option) next_entry :: "address \<Rightarrow> archive_reader \<Rightarrow> ((error + archive_entry option) \<times> archive_reader) option" where
  "next_entry buf r =
     (case next_entry_step buf r of
        (Again, r') \<Rightarrow> next_entry buf r'
      | (Done res, r') \<Rightarrow> Some (res, r'))"

section \<open>Reading the payload (archive_reader.cpp, sparse_reader.hpp, archive_entry.hpp)\<close>

text \<open>
  The \<open>base_reader\<close> closure of \<open>next_entry\<close>.  It holds pointers to the stream and
  to the two payload counters of the reader, so it is a function on the reader's state.
  Its first check refuses every offset but 0.
\<close>

definition base_reader :: "nat \<Rightarrow> nat \<Rightarrow> archive_reader \<Rightarrow> (error + bytes) \<times> archive_reader" where
  "base_reader off len r =
     (if off > 0 then
        (Inl (unsupported_feature, ''Streaming mode doesn't support offset reads''), r)
      else if off < current_entry_data_consumed r then
        (Inl (invalid_operation, ''Cannot seek backwards in streaming mode''), r)
      else
        let skip_amount = off - current_entry_data_consumed r;
            (skip_res, r1) =
              (if skip_amount > 0 then
                 (case stream_skip skip_amount (stream r) of
                    (Inl e, s') \<Rightarrow> (Inl e, r\<lparr>stream := s'\<rparr>)
                  | (Inr u, s') \<Rightarrow>
                      (Inr (),
                       r\<lparr>stream := s',
                         current_entry_data_consumed :=
                           u64 (current_entry_data_consumed r + skip_amount),
                         current_entry_data_remaining :=
                           u64 (current_entry_data_remaining r + 2 ^ 64 - skip_amount)\<rparr>))
               else (Inr (), r))
        in case skip_res of
             Inl e \<Rightarrow> (Inl e, r1)
           | Inr u \<Rightarrow>
               let to_read = min len (current_entry_data_remaining r1)
               in if to_read = 0 then (Inr [], r1)
                  else
                    (case stream_read to_read (stream r1) of
                       (Inl e, s') \<Rightarrow> (Inl e, r1\<lparr>stream := s'\<rparr>)
                     | (Inr buffer, s') \<Rightarrow>
                         (Inr buffer,
                          r1\<lparr>stream := s',
                             current_entry_data_remaining :=
                               current_entry_data_remaining r1 - length buffer,
                             current_entry_data_consumed :=
                               u64 (current_entry_data_consumed r1 + length buffer)\<rparr>)))"

text \<open>
  In a hole the sparse reader looks for the first segment (in list order) that starts
  after the current offset.
\<close>

definition next_segment_start :: "sparse_metadata \<Rightarrow> nat \<Rightarrow> nat" where
  "next_segment_start sm current_offset =
     (case filter (\<lambda>seg. offset seg > current_offset) (segments sm) of
        [] \<Rightarrow> real_size sm
      | seg # rest \<Rightarrow> offset seg)"

definition sparse_data_offset :: "sparse_metadata \<Rightarrow> nat \<Rightarrow> nat \<Rightarrow> nat" where
  "sparse_data_offset sm segment_idx segment_offset =
     u64 (foldl (\<lambda>acc seg. u64 (acc + numbytes seg)) 0 (take segment_idx (segments sm))
          + segment_offset)"

text \<open>
  The loop \<open>while (remaining > 0)\<close> of \<open>sparse::make_sparse_reader\<close>.  A base read
  that returns no byte leaves all its variables as they were, so the loop need not end:
  not returning is the value \<open>None\<close>.
\<close>

partial_function (option) sparse_read_loop ::
  "sparse_metadata \<Rightarrow> nat \<Rightarrow> nat \<Rightarrow> bytes \<Rightarrow> archive_reader
     \<Rightarrow> ((error + bytes) \<times> archive_reader) option" where
  "sparse_read_loop sm current_offset remaining result_buffer r =
     (if remaining > 0 then
        (case find_segment sm current_offset of
           Some segment_idx \<Rightarrow>
             (let segment = segments sm ! segment_idx;
                  segment_offset = current_offset - offset segment;
                  segment_remaining = numbytes segment - segment_offset;
                  to_read = min remaining segment_remaining
              in case base_reader (sparse_data_offset sm segment_idx segment_offset) to_read r of
                   (Inl e, r') \<Rightarrow> Some (Inl e, r')
                 | (Inr read_result, r') \<Rightarrow>
                     sparse_read_loop sm (current_offset + length read_result)
                       (remaining - length read_result) (result_buffer @ read_result) r')
         | None \<Rightarrow>
             (let hole_size = next_segment_start sm current_offset - current_offset;
                  to_fill = min remaining hole_size
              in sparse_read_loop sm (current_offset + to_fill) (remaining - to_fill)
                   (result_buffer @ replicate to_fill NUL) r))
      else Some (Inr result_buffer, r))"

definition sparse_reader ::
  "sparse_metadata \<Rightarrow> nat \<Rightarrow> nat \<Rightarrow> archive_reader
     \<Rightarrow> ((error + bytes) \<times> archive_reader) option" where
  "sparse_reader sm off len r =
     (if off \<ge> real_size sm then Some (Inr [], r)
      else sparse_read_loop sm off (min len (real_size sm - off)) [] r)"

text \<open>\<open>archive_entry::read_data\<close> in streaming mode.\<close>

definition read_data ::
  "archive_entry \<Rightarrow> nat \<Rightarrow> nat \<Rightarrow> archive_reader \<Rightarrow> ((error + bytes) \<times> archive_reader) option" where
  "read_data entry off len r =
     (if \<not> is_regular_file entry then
        Some (Inl (invalid_operation, ''Entry is not a regular file''), r)
      else case sparse_info entry of
             Some sm \<Rightarrow> sparse_reader sm off len r
           | None \<Rightarrow> Some (base_reader off len r))"

section \<open>The iterator (archive_reader.hpp)\<close>

text \<open>
  \<open>archive_reader::iterator\<close>.  \<open>reader_set\<close> says that the pointer \<open>reader_\<close> is
  not null; the reader it points to is passed along and returned.
\<close>

record iterator =
  reader_set :: bool
  current :: "archive_entry option"
  error_occurred :: bool

definition end_iterator :: iterator where
  "end_iterator = \<lparr>reader_set = False, current = None, error_occurred = False\<rparr>"

definition increment ::
  "address \<Rightarrow> iterator \<Rightarrow> archive_reader \<Rightarrow> (iterator \<times> archive_reader) option" where
  "increment buf it r =
     (if reader_set it \<and> \<not> error_occurred it then
        (case next_entry buf r of
           None \<Rightarrow> None
         | Some (Inr (Some entry), r') \<Rightarrow> Some (it\<lparr>current := Some entry\<rparr>, r')
         | Some (Inr None, r') \<Rightarrow> Some (it\<lparr>reader_set := False, current := None\<rparr>, r')
         | Some (Inl e, r') \<Rightarrow>
             Some (it\<lparr>error_occurred := True, reader_set := False, current := None\<rparr>, r'))
      else Some (it, r))"

definition begin_iterator ::
  "address \<Rightarrow> archive_reader \<Rightarrow> (iterator \<times> archive_reader) option" where
  "begin_iterator buf r =
     increment buf \<lparr>reader_set = True, current = None, error_occurred = False\<rparr> r"

definition iterator_eq :: "iterator \<Rightarrow> iterator \<Rightarrow> bool" where
  "iterator_eq a b = (reader_set a = reader_set b)"

definition has_error :: "iterator \<Rightarrow> bool" where
  "has_error it = error_occurred it"

section \<open>Repeated advances and test archives\<close>

text \<open>\<open>n\<close> advances of the iterator, one after the other.\<close>

fun increments ::
  "address \<Rightarrow> nat \<Rightarrow> iterator \<Rightarrow> archive_reader \<Rightarrow> (iterator \<times> archive_reader) option" where
  "increments buf 0 it r = Some (it, r)"
| "increments buf (Suc n) it r =
     (case increment buf it r of None \<Rightarrow> None | Some (it', r') \<Rightarrow> increments buf n it' r')"

text \<open>
  The address of the buffer for PAX data in the test runs.  The address makes a difference
  only for a record length that carries the end of the record past \<open>2 ^ 64\<close>; the
  records of the test archives are a few bytes long.
\<close>

definition pax_buffer :: address where
  "pax_buffer = 4096"

text \<open>A stream of three bytes: too short for a header record.\<close>

definition short_stream :: mmap_stream where
  "short_stream = \<lparr>data = ''abc'', position = 0\<rparr>"

text \<open>
  The entries of an ACL text as the loop of \<open>parse_acl_text\<close> cuts them out (split
  at commas, trimmed, empty ones dropped), and the permission part of an entry: what the
  third \<open>getline\<close> of the loop body reads.
\<close>

function acl_entries :: "string \<Rightarrow> string list" where
  "acl_entries rest =
     (case getline (CHR '','') rest of
        None \<Rightarrow> []
      | Some (entry_str, rest') \<Rightarrow>
          if trim entry_str = [] then acl_entries rest'
          else trim entry_str # acl_entries rest')"
  by pat_completeness auto
termination
  by (relation "measure length") (auto dest: getline_shorter)

definition perm_part :: "string \<Rightarrow> string option" where
  "perm_part entry_str =
     (case getline (CHR '':'') entry_str of
        None \<Rightarrow> None
      | Some (type_str, rest1) \<Rightarrow>
          (case getline (CHR '':'') rest1 of
             None \<Rightarrow> None
           | Some (id_str, rest2) \<Rightarrow> map_option fst (getline (CHR 0x0A) rest2)))"

definition perm_three :: "string \<Rightarrow> bool" where
  "perm_three entry_str =
     (case perm_part entry_str of None \<Rightarrow> False | Some p \<Rightarrow> length p = 3)"

text \<open>
  The permission part of the entry has three characters and the decoded entry has bit 4
  exactly for \<open>r\<close> in the first place, bit 2 for \<open>w\<close> in the second and bit 1 for
  \<open>x\<close> in the third.
\<close>

definition perm_decoded :: "string \<Rightarrow> acl_entry \<Rightarrow> bool" where
  "perm_decoded entry_str entry =
     (case perm_part entry_str of
        None \<Rightarrow> False
      | Some p \<Rightarrow> length p = 3 \<and> acl_permissions entry
                    = (if p ! 0 = CHR ''r'' then 4 else 0) + (if p ! 1 = CHR ''w'' then 2 else 0)
                      + (if p ! 2 = CHR ''x'' then 1 else 0))"

text \<open>
  A header record for a regular file \<open>a\<close> of size 0: magic \<open>ustar\<close>, version
  \<open>00\<close>, type \<open>0\<close>, checksum \<open>2040\<close> (octal); every other field is NUL.
\<close>

definition plain_header :: bytes where
  "plain_header = ''a'' @ replicate 147 NUL @ ''2040'' @ replicate 4 NUL @ ''0''
     @ replicate 100 NUL @ ''ustar'' @ [NUL] @ ''00'' @ replicate 247 NUL"

text \<open>A record with magic \<open>ustar\<close> whose version field is two NUL bytes.\<close>

definition empty_version_header :: bytes where
  "empty_version_header = replicate 257 NUL @ ''ustar'' @ replicate 250 NUL"

text \<open>The bytes of a stream that are not read yet.\<close>

definition unread :: "mmap_stream \<Rightarrow> bytes" where
  "unread s = drop (position s) (data s)"

text \<open>Streams of one and of two zero records, and a zero record before other bytes.\<close>

definition one_zero_record :: mmap_stream where
  "one_zero_record = \<lparr>data = replicate 512 NUL, position = 0\<rparr>"

definition two_zero_records :: mmap_stream where
  "two_zero_records = \<lparr>data = replicate 1024 NUL, position = 0\<rparr>"

definition zero_then_garbage :: mmap_stream where
  "zero_then_garbage = \<lparr>data = replicate 512 NUL @ replicate 512 (CHR ''x''), position = 0\<rparr>"

definition empty_stream :: mmap_stream where
  "empty_stream = \<lparr>data = [], position = 0\<rparr>"

text \<open>
  The reader state in which \<open>next_entry\<close> decodes the header it has just read, and
  the state \<open>k\<close> bytes further on when no entry is current.
\<close>

definition at_header :: "archive_reader \<Rightarrow> mmap_stream \<Rightarrow> archive_reader" where
  "at_header r1 s3 =
     r1\<lparr>current_entry := None, current_entry_data_remaining := 0,
        current_entry_data_consumed := 0, stream := s3\<rparr>"

definition advanced :: "archive_reader \<Rightarrow> nat \<Rightarrow> archive_reader" where
  "advanced r k = at_header r ((stream r)\<lparr>position := position (stream r) + k\<rparr>)"

text \<open>
  A reader that expects a header and has the bytes \<open>bs\<close> ahead: it is not finished,
  no payload of a current entry is left to skip, and the stream is a mapping of less
  than \<open>2 ^ 64\<close> bytes with its position inside.
\<close>

definition header_expected :: "archive_reader \<Rightarrow> bytes \<Rightarrow> bool" where
  "header_expected r bs =
     (\<not> finished r \<and> current_entry r = None \<and> current_entry_data_remaining r = 0
      \<and> unread (stream r) = bs \<and> position (stream r) \<le> length (data (stream r))
      \<and> length (data (stream r)) < 2 ^ 64)"

text \<open>A record whose first byte is \<open>x\<close> and whose other bytes are NUL: it has no tar magic.\<close>

definition bad_magic_stream :: mmap_stream where
  "bad_magic_stream = \<lparr>data = ''x'' @ replicate 511 NUL, position = 0\<rparr>"

text \<open>
  The header of a PAX \<open>x\<close> record with 128 bytes of data (size field \<open>200\<close>), and
  the data made of the given records and NUL bytes up to 128; the loop of
  \<open>parse_pax_headers\<close> stops at the first NUL byte.
\<close>

definition pax_header :: bytes where
  "pax_header = ''PaxHeader'' @ replicate 115 NUL @ ''200'' @ replicate 21 NUL @ ''4013''
     @ replicate 4 NUL @ ''x'' @ replicate 100 NUL @ ''ustar'' @ [NUL] @ ''00''
     @ replicate 247 NUL"

definition pax_payload :: "bytes \<Rightarrow> bytes" where
  "pax_payload records = records @ replicate (128 - length records) NUL"

text \<open>PAX records; the number in front is the length of the whole record.\<close>

definition path_record :: bytes where
  "path_record = ''17 path=pax/name'' @ [CHR 0x0A]"

definition size_record :: bytes where
  "size_record = ''12 size=abc'' @ [CHR 0x0A]"

definition size_prefix_record :: bytes where
  "size_prefix_record = ''14 size=12abc'' @ [CHR 0x0A]"

definition sparse_size_records :: bytes where
  "sparse_size_records = ''12 size=abc'' @ [CHR 0x0A] @ ''22 GNU.sparse.major=1'' @ [CHR 0x0A]
     @ ''22 GNU.sparse.minor=0'' @ [CHR 0x0A] @ ''28 GNU.sparse.realsize=2048'' @ [CHR 0x0A]"

text \<open>
  The headers of a GNU \<open>L\<close> and of a GNU \<open>K\<close> record with GNU magic and a payload
  of six bytes, and such a payload: the name \<open>abc\<close> and three NUL bytes.
\<close>

definition longname_header :: bytes where
  "longname_header = ''././@LongLink'' @ replicate 111 NUL @ ''6'' @ replicate 23 NUL @ ''4011''
     @ replicate 4 NUL @ ''L'' @ replicate 100 NUL @ ''ustar  '' @ replicate 248 NUL"

definition longlink_header :: bytes where
  "longlink_header = ''././@LongLink'' @ replicate 111 NUL @ ''6'' @ replicate 23 NUL @ ''4010''
     @ replicate 4 NUL @ ''K'' @ replicate 100 NUL @ ''ustar  '' @ replicate 248 NUL"

definition longname_payload :: bytes where
  "longname_payload = ''abc'' @ replicate 3 NUL"

text \<open>
  Archives: an \<open>x\<close> record with the given PAX records, its padding of 384 bytes and
  the header \<open>plain_header\<close> of the file \<open>a\<close>; the same with the \<open>path\<close> record and
  an \<open>L\<close> record between the \<open>x\<close> record and the header; and an \<open>L\<close> or \<open>K\<close>
  record of the given header and six bytes of payload, its padding of 506 bytes and the
  header \<open>plain_header\<close>.
\<close>

definition pax_archive :: "bytes \<Rightarrow> mmap_stream" where
  "pax_archive records =
     \<lparr>data = pax_header @ pax_payload records @ replicate 384 NUL @ plain_header,
      position = 0\<rparr>"


definition name_record_archive :: "bytes \<Rightarrow> bytes \<Rightarrow> mmap_stream" where
  "name_record_archive header payload =
     \<lparr>data = header @ payload @ replicate 506 NUL @ plain_header, position = 0\<rparr>"

text \<open>
  An archive with one old-format GNU sparse entry: a header of type \<open>S\<close> with GNU
  magic for the file \<open>s\<close>, stored size 4, the two segments (0, 2) and (4, 2) and
  real size 6 in the overlay at 384..492; then the four stored bytes \<open>abcd\<close>, 508
  bytes of padding and two zero records.  \<open>sparse_file\<close> is the entry the reader
  yields for it and \<open>after_sparse_header\<close> the state of the reader at that moment.
\<close>

definition sparse_header :: bytes where
  "sparse_header = ''s'' @ replicate 123 NUL @ ''4'' @ replicate 23 NUL @ ''2547''
     @ replicate 4 NUL @ ''S'' @ replicate 100 NUL @ ''ustar  '' @ replicate 120 NUL
     @ ''0'' @ replicate 11 NUL @ ''2'' @ replicate 11 NUL @ ''4'' @ replicate 11 NUL
     @ ''2'' @ replicate 60 NUL @ ''6'' @ replicate 30 NUL"

definition sparse_archive :: mmap_stream where
  "sparse_archive = \<lparr>data = sparse_header @ ''abcd'' @ replicate 508 NUL @ replicate 1024 NUL,
                      position = 0\<rparr>"

definition sparse_descriptor :: sparse_metadata where
  "sparse_descriptor = \<lparr>real_size = 6,
     segments = [\<lparr>offset = 0, numbytes = 2\<rparr>, \<lparr>offset = 4, numbytes = 2\<rparr>]\<rparr>"

definition sparse_file :: archive_entry where
  "sparse_file = default_metadata\<lparr>path := ''s'', permissions := 0, msize := 6,
                                   sparse_info := Some sparse_descriptor\<rparr>"

definition after_sparse_header :: archive_reader where
  "after_sparse_header =
     (new_reader (sparse_archive\<lparr>position := 512\<rparr>))
       \<lparr>current_entry := Some sparse_file, current_entry_data_remaining := 4\<rparr>"

text \<open>
  The first data block of two GNU sparse 1.0 entries: a map with one pair (count 1,
  offset 0, length 512) and a map with two pairs, each padded with NUL bytes.
\<close>

definition sparse_map_count_one :: mmap_stream where
  "sparse_map_count_one =
     \<lparr>data = ''1'' @ [CHR 0x0A] @ ''0'' @ [CHR 0x0A] @ ''512'' @ [CHR 0x0A] @ replicate 504 NUL,
      position = 0\<rparr>"

definition sparse_map_count_two :: mmap_stream where
  "sparse_map_count_two =
     \<lparr>data = ''2'' @ [CHR 0x0A] @ ''0'' @ [CHR 0x0A] @ ''512'' @ [CHR 0x0A] @ ''1536''
               @ [CHR 0x0A] @ ''512'' @ [CHR 0x0A] @ replicate 494 NUL,
      position = 0\<rparr>"


section \<open>Invariants of the byte source\<close>

text \<open>
  A well-formed \<open>mmap_stream\<close>: the position is inside the mapping, and the mapping is
  small enough that a position plus one header's size field (at most 11 octal digits, below
  \<open>2 ^ 36\<close>) plus a padding does not wrap a 64-bit \<open>size_t\<close>.  \<open>stream_le\<close> says
  that a later state of the same stream is not behind an earlier one; \<open>idle\<close> that the reader
  holds no payload of a current entry.
\<close>

definition stream_ok :: "mmap_stream \<Rightarrow> bool" where
  "stream_ok s = (position s \<le> length (data s) \<and> length (data s) + 2 ^ 37 \<le> 2 ^ 64)"

definition stream_le :: "mmap_stream \<Rightarrow> mmap_stream \<Rightarrow> bool" where
  "stream_le s s' = (data s' = data s \<and> position s \<le> position s' \<and> stream_ok s')"

definition idle :: "archive_reader \<Rightarrow> bool" where
  "idle r = (current_entry r = None \<and> current_entry_data_remaining r = 0)"

section \<open>Evaluating the decoder on records with NUL-filled fields\<close>

declare parse_acl_loop.simps [simp del] acl_entries.simps [simp del]
  read_extension_loop.simps [simp del] parse_pax_loop.simps [simp del]
  sparse_numbers_loop.simps [simp del] read_sparse_map_continuation_loop.simps [simp del]

lemmas header_field_defs = field_def h_name_def h_mode_def h_uid_def h_gid_def h_size_def
  h_mtime_def h_checksum_def h_typeflag_def h_linkname_def h_magic_def h_version_def
  h_uname_def h_gname_def h_devmajor_def h_devminor_def h_prefix_def h_sp_offset_def
  h_sp_numbytes_def h_realsize_def

lemma parse_octal_loop_nuls [simp]:
  "parse_octal_loop (replicate n NUL @ cs) result False = parse_octal_loop cs result False"
  by (induction n) simp_all

lemma parse_octal_loop_nuls_found [simp]:
  "0 < n \<Longrightarrow> parse_octal_loop (replicate n NUL @ cs) result True = Inr result"
  "0 < n \<Longrightarrow> parse_octal_loop (replicate n NUL) result True = Inr result"
  by (cases n; simp)+

lemma parse_octal_nuls [simp]: "parse_octal (replicate n NUL) = Inr 0"
  using parse_octal_loop_nuls [of n "[]" 0] by (simp add: parse_octal_def)

lemma extract_string_nuls [simp]:
  "0 < n \<Longrightarrow> extract_string (replicate n NUL @ cs) = []"
  "0 < n \<Longrightarrow> extract_string (replicate n NUL) = []"
  by (cases n; simp add: extract_string_def)+

lemma calculate_checksum_sum:
  "calculate_checksum block
     = sum_list (map of_char (take 148 block @ replicate 8 (CHR '' '') @ drop 156 block))
         mod 2 ^ 32"
proof -
  have "foldl (\<lambda>sum b. (sum + of_char b) mod 2 ^ 32) (a::nat) bs
         = (if bs = [] then a else (a + sum_list (map of_char bs)) mod 2 ^ 32)" for a bs
  proof (induction bs arbitrary: a)
    case Nil
    then show ?case by simp
  next
    case (Cons b bs)
    show ?case
      by (simp add: Cons.IH mod_add_left_eq add.assoc del: power_numeral)
  qed
  then show ?thesis
    by (simp add: calculate_checksum_def Let_def del: power_numeral)
qed

lemma parse_sparse_octal_nuls [simp]: "parse_sparse_octal (replicate n NUL) = None"
proof -
  have "parse_sparse_octal_loop (replicate n NUL) v l = (if l > 0 then Some v else None)" for v l
    by (induction n) (simp_all add: is_octal_char_def)
  then show ?thesis by (simp add: parse_sparse_octal_def)
qed

lemma plain_strings:
  "extract_string (h_magic plain_header) = ''ustar''"
  "extract_string (h_version plain_header) = ''00''"
  "extract_string (h_name plain_header) = ''a''"
  "extract_string (h_prefix plain_header) = []"
  "extract_string (h_uname plain_header) = []"
  "extract_string (h_gname plain_header) = []"
  "h_typeflag plain_header = CHR ''0''"
  by (simp_all add: plain_header_def header_field_defs extract_string_def [of "_ # _"])

lemma plain_numbers:
  "parse_octal (h_checksum plain_header) = Inr 1056"
  "parse_octal (h_mode plain_header) = Inr 0"
  "parse_octal (h_uid plain_header) = Inr 0"
  "parse_octal (h_gid plain_header) = Inr 0"
  "parse_octal (h_size plain_header) = Inr 0"
  "parse_octal (h_mtime plain_header) = Inr 0"
  by (simp_all add: plain_header_def header_field_defs parse_octal_def [of "_ # _"]
      is_octal_char_def digit_of_def)

lemma plain_sparse:
  "parse_old_sparse_header plain_header = Inr \<lparr>real_size = 0, segments = []\<rparr>"
  by (simp add: parse_old_sparse_header_def plain_header_def header_field_defs)

lemma plain_checksum: "calculate_checksum plain_header = 1056"
  by (simp add: calculate_checksum_sum plain_header_def sum_list_replicate)

lemma parse_plain_header:
  "parse_header plain_header = Inr (default_metadata\<lparr>path := ''a'', permissions := 0\<rparr>)"
  by (simp add: parse_header_def plain_strings plain_numbers plain_sparse plain_checksum Let_def
      is_gnu_tar_magic_def regular_file_def gnu_sparse_def known_entry_types_def
      detect_sparse_def parse_device_numbers_def handle_links_def set_metadata_fields_def
      header_path_def
      default_metadata_def character_device_def block_device_def symbolic_link_def hard_link_def)

section \<open>The records of the test archives\<close>

lemma plain_length: "length plain_header = 512"
  by (simp add: plain_header_def)

lemma plain_not_zero: "\<not> is_zero_block plain_header"
  by (simp add: is_zero_block_def plain_header_def)

lemma plain_metadata_kind:
  "\<not> is_gnu_extension (default_metadata\<lparr>path := ''a'', permissions := 0\<rparr>)"
  "\<not> is_pax_header (default_metadata\<lparr>path := ''a'', permissions := 0\<rparr>)"
  by (simp_all add: is_gnu_extension_def is_pax_header_def default_metadata_def
      is_gnu_longname_def is_gnu_longlink_def regular_file_def gnu_longname_def
      gnu_longlink_def gnu_sparse_def gnu_volhdr_def gnu_multivol_def
      pax_extended_header_def pax_global_header_def)

lemma pax_header_strings:
  "extract_string (h_magic pax_header) = ''ustar''"
  "extract_string (h_version pax_header) = ''00''"
  "extract_string (h_name pax_header) = ''PaxHeader''"
  "extract_string (h_prefix pax_header) = []"
  "extract_string (h_uname pax_header) = []"
  "extract_string (h_gname pax_header) = []"
  "h_typeflag pax_header = CHR ''x''"
  by (simp_all add: pax_header_def header_field_defs extract_string_def [of "_ # _"])

lemma pax_header_numbers:
  "parse_octal (h_checksum pax_header) = Inr 2059"
  "parse_octal (h_mode pax_header) = Inr 0"
  "parse_octal (h_uid pax_header) = Inr 0"
  "parse_octal (h_gid pax_header) = Inr 0"
  "parse_octal (h_size pax_header) = Inr 128"
  "parse_octal (h_mtime pax_header) = Inr 0"
  by (simp_all add: pax_header_def header_field_defs parse_octal_def [of "_ # _"]
      is_octal_char_def digit_of_def)

lemma pax_header_checksum: "calculate_checksum pax_header = 2059"
  by (simp add: calculate_checksum_sum pax_header_def sum_list_replicate)

lemma parse_pax_header:
  "parse_header pax_header
     = Inr (default_metadata\<lparr>path := ''PaxHeader'', mtype := pax_extended_header,
                              permissions := 0, msize := 128\<rparr>)"
  by (simp add: parse_header_def pax_header_strings pax_header_numbers pax_header_checksum
      Let_def is_gnu_tar_magic_def regular_file_def gnu_sparse_def known_entry_types_def
      detect_sparse_def parse_device_numbers_def handle_links_def set_metadata_fields_def
      header_path_def pax_extended_header_def
      default_metadata_def character_device_def block_device_def symbolic_link_def hard_link_def)

lemma longname_header_strings:
  "extract_string (h_magic longname_header) = ''ustar ''"
  "extract_string (h_version longname_header) = '' ''"
  "extract_string (h_name longname_header) = ''././@LongLink''"
  "extract_string (h_prefix longname_header) = []"
  "extract_string (h_uname longname_header) = []"
  "extract_string (h_gname longname_header) = []"
  "h_typeflag longname_header = CHR ''L''"
  by (simp_all add: longname_header_def header_field_defs extract_string_def [of "_ # _"])

lemma longname_header_numbers:
  "parse_octal (h_checksum longname_header) = Inr 2057"
  "parse_octal (h_mode longname_header) = Inr 0"
  "parse_octal (h_uid longname_header) = Inr 0"
  "parse_octal (h_gid longname_header) = Inr 0"
  "parse_octal (h_size longname_header) = Inr 6"
  "parse_octal (h_mtime longname_header) = Inr 0"
  by (simp_all add: longname_header_def header_field_defs parse_octal_def [of "_ # _"]
      is_octal_char_def digit_of_def)

lemma longname_header_checksum: "calculate_checksum longname_header = 2057"
  by (simp add: calculate_checksum_sum longname_header_def sum_list_replicate)

lemma parse_longname_header:
  "parse_header longname_header
     = Inr (default_metadata\<lparr>path := ''././@LongLink'', mtype := gnu_longname,
                              permissions := 0, msize := 6\<rparr>)"
  by (simp add: parse_header_def longname_header_strings longname_header_numbers
      longname_header_checksum
      Let_def is_gnu_tar_magic_def regular_file_def gnu_sparse_def known_entry_types_def
      detect_sparse_def parse_device_numbers_def handle_links_def set_metadata_fields_def
      header_path_def gnu_longname_def
      default_metadata_def character_device_def block_device_def symbolic_link_def hard_link_def)

lemma longlink_header_strings:
  "extract_string (h_magic longlink_header) = ''ustar ''"
  "extract_string (h_version longlink_header) = '' ''"
  "extract_string (h_name longlink_header) = ''././@LongLink''"
  "extract_string (h_prefix longlink_header) = []"
  "extract_string (h_uname longlink_header) = []"
  "extract_string (h_gname longlink_header) = []"
  "h_typeflag longlink_header = CHR ''K''"
  by (simp_all add: longlink_header_def header_field_defs extract_string_def [of "_ # _"])

lemma longlink_header_numbers:
  "parse_octal (h_checksum longlink_header) = Inr 2056"
  "parse_octal (h_mode longlink_header) = Inr 0"
  "parse_octal (h_uid longlink_header) = Inr 0"
  "parse_octal (h_gid longlink_header) = Inr 0"
  "parse_octal (h_size longlink_header) = Inr 6"
  "parse_octal (h_mtime longlink_header) = Inr 0"
  by (simp_all add: longlink_header_def header_field_defs parse_octal_def [of "_ # _"]
      is_octal_char_def digit_of_def)

lemma longlink_header_checksum: "calculate_checksum longlink_header = 2056"
  by (simp add: calculate_checksum_sum longlink_header_def sum_list_replicate)

lemma parse_longlink_header:
  "parse_header longlink_header
     = Inr (default_metadata\<lparr>path := ''././@LongLink'', mtype := gnu_longlink,
                              permissions := 0, msize := 6\<rparr>)"
  by (simp add: parse_header_def longlink_header_strings longlink_header_numbers
      longlink_header_checksum
      Let_def is_gnu_tar_magic_def regular_file_def gnu_sparse_def known_entry_types_def
      detect_sparse_def parse_device_numbers_def handle_links_def set_metadata_fields_def
      header_path_def gnu_longlink_def
      default_metadata_def character_device_def block_device_def symbolic_link_def hard_link_def)

lemma fixture_lengths [simp]:
  "length pax_header = 512" "length longname_header = 512" "length longname_payload = 6"
  "length longlink_header = 512"
  "length path_record = 17" "length size_record = 12" "length size_prefix_record = 14"
  "length sparse_size_records = 84"
  by (simp_all add: pax_header_def longname_header_def longname_payload_def path_record_def
      size_record_def size_prefix_record_def sparse_size_records_def longlink_header_def)

lemma pax_payload_length [simp]:
  "length records \<le> 128 \<Longrightarrow> length (pax_payload records) = 128"
  by (simp add: pax_payload_def)

lemma fixture_not_zero:
  "\<not> is_zero_block pax_header" "\<not> is_zero_block longname_header"
  "\<not> is_zero_block longlink_header"
  by (simp_all add: is_zero_block_def pax_header_def longname_header_def longlink_header_def)

lemma padding_of_values:
  "padding_of 128 = 384" "padding_of 6 = 506"
  by (simp_all add: padding_of_def BLOCK_SIZE_def)

section \<open>The version field\<close>

lemma parse_octal_loop_error:
  "parse_octal_loop cs r fd = Inl e \<Longrightarrow> e \<noteq> (invalid_header, ''Unsupported tar version'')"
  by (induction cs r fd rule: parse_octal_loop.induct) (auto split: if_splits)

text \<open>
  Claim C6, as the code has it.  For a record whose magic is recognised,
  \<open>parse_header\<close> returns the invalid-header error of the version check exactly when
  the version field, read up to its first NUL, is neither \<open>00\<close> nor a single space.
  An empty version (a field of NUL bytes) is therefore refused, not accepted.
\<close>

theorem version_check:
  assumes "extract_string (h_magic block) = ''ustar''
           \<or> extract_string (h_magic block) = ''ustar ''"
  shows "parse_header block = Inl (invalid_header, ''Unsupported tar version'')
           \<longleftrightarrow> extract_string (h_version block) \<noteq> ''00''
                \<and> extract_string (h_version block) \<noteq> '' ''"
  using assms parse_octal_loop_error [of "h_checksum block" 0 False]
  by (auto simp: parse_header_def Let_def is_gnu_tar_magic_def parse_octal_def
      split: sum.splits if_splits)

theorem version_check_witness:
  "extract_string (h_magic plain_header) = ''ustar''
   \<and> extract_string (h_version plain_header) = ''00''
   \<and> parse_header plain_header \<noteq> Inl (invalid_header, ''Unsupported tar version'')"
  using version_check [of plain_header] by (simp add: plain_strings)

theorem empty_version_rejected:
  "extract_string (h_magic empty_version_header) = ''ustar''
   \<and> h_version empty_version_header = replicate 2 NUL
   \<and> extract_string (h_version empty_version_header) = []
   \<and> parse_header empty_version_header = Inl (invalid_header, ''Unsupported tar version'')"
  by (simp add: parse_header_def empty_version_header_def header_field_defs
      extract_string_def is_gnu_tar_magic_def)

section \<open>ACL permission parts\<close>

lemma parse_acl_entry_perm:
  assumes "parse_acl_entry e = Inr a"
  shows "perm_decoded e a"
proof -
  obtain t r1 where g1: "getline (CHR '':'') e = Some (t, r1)"
    using assms by (cases "getline (CHR '':'') e") (auto simp: parse_acl_entry_def)
  obtain i r2 where g2: "getline (CHR '':'') r1 = Some (i, r2)"
    using assms g1 by (cases "getline (CHR '':'') r1") (auto simp: parse_acl_entry_def)
  obtain p r3 where g3: "getline (CHR 0x0A) r2 = Some (p, r3)"
    using assms g1 g2 by (cases "getline (CHR 0x0A) r2") (auto simp: parse_acl_entry_def)
  have "length p = 3 \<and> acl_permissions a = permission_bits p"
    using assms g1 g2 g3 by (auto simp: parse_acl_entry_def split: if_splits)
  then show ?thesis
    using g1 g2 g3
    by (simp add: perm_decoded_def perm_part_def permission_bits_def perm_read_def
        perm_write_def perm_execute_def)
qed

lemma parse_acl_loop_decoded:
  "parse_acl_loop rest acc = Inr result \<Longrightarrow>
     \<exists>es. result = acc @ es \<and> list_all2 perm_decoded (acl_entries rest) es"
proof (induction rest acc rule: parse_acl_loop.induct)
  case (1 rest acc)
  show ?case
  proof (cases "getline (CHR '','') rest")
    case None
    with "1.prems" show ?thesis
      by (simp add: parse_acl_loop.simps [of rest] acl_entries.simps [of rest])
  next
    case (Some p)
    obtain entry_str rest' where p: "p = (entry_str, rest')" by (cases p)
    show ?thesis
    proof (cases "trim entry_str = []")
      case True
      with Some p "1.prems" have "parse_acl_loop rest' acc = Inr result"
        by (simp add: parse_acl_loop.simps [of rest])
      from "1.IH"(1) [OF Some p [symmetric] True this] Some p True show ?thesis
        by (simp add: acl_entries.simps [of rest])
    next
      case False
      with Some p "1.prems" obtain a where
        a: "parse_acl_entry (trim entry_str) = Inr a"
        and rec: "parse_acl_loop rest' (acc @ [a]) = Inr result"
        by (auto simp: parse_acl_loop.simps [of rest] split: sum.splits)
      from "1.IH"(2) [OF Some p [symmetric] False a rec]
      obtain es where es: "result = (acc @ [a]) @ es"
        "list_all2 perm_decoded (acl_entries rest') es" by blast
      have "list_all2 perm_decoded (acl_entries rest) (a # es)"
        using Some p False es(2) parse_acl_entry_perm [OF a]
        by (simp add: acl_entries.simps [of rest])
      with es(1) show ?thesis by (intro exI [of _ "a # es"]) simp
    qed
  qed
qed

lemma perm_decoded_three: "perm_decoded e a \<Longrightarrow> perm_three e"
  by (auto simp: perm_decoded_def perm_three_def split: option.splits)

lemma list_all2_perm_three:
  "list_all2 perm_decoded es as \<Longrightarrow> list_all perm_three es"
  by (induction rule: list_all2_induct) (auto intro: perm_decoded_three)

lemmas acl_eval = parse_acl_text_def parse_acl_loop.simps acl_entries.simps getline_def trim_def
  is_blank_def parse_acl_entry_def acl_type_of_def permission_bits_def perm_read_def
  perm_write_def perm_execute_def from_chars_unsigned_def is_digit_char_def decimal_value_def
  digit_of_def perm_part_def perm_three_def perm_decoded_def acl_user_obj_def acl_user_def
  acl_group_def acl_group_obj_def acl_mask_def acl_other_def

text \<open>
  Claim C8, as the code has it.  \<open>parse_acl_text\<close> returns an error whenever some
  entry has no permission part of exactly three characters; when it succeeds, it has
  decoded the entries one by one, and each decoded entry has bit 4 exactly when the first
  character of the permission part is \<open>r\<close>, bit 2 when the second is \<open>w\<close>, bit 1
  when the third is \<open>x\<close>.  Which other characters the part holds is not checked.
\<close>

theorem acl_permission_length_and_bits:
  "(\<not> list_all perm_three (acl_entries acl_text) \<longrightarrow> isl (parse_acl_text acl_text))
   \<and> (\<forall>result. parse_acl_text acl_text = Inr result
         \<longrightarrow> list_all2 perm_decoded (acl_entries acl_text) result)"
proof -
  have b: "list_all2 perm_decoded (acl_entries acl_text) result"
    if "parse_acl_text acl_text = Inr result" for result
    using parse_acl_loop_decoded [of acl_text "[]" result] that
    by (simp add: parse_acl_text_def)
  have "list_all perm_three (acl_entries acl_text)" if "\<not> isl (parse_acl_text acl_text)"
  proof -
    from that obtain result where r: "parse_acl_text acl_text = Inr result"
      by (cases "parse_acl_text acl_text") auto
    from b [OF r] show ?thesis
      by (rule list_all2_perm_three)
  qed
  with b show ?thesis by blast
qed

theorem acl_permission_length_and_bits_witness:
  "\<not> list_all perm_three (acl_entries ''user::rwx, user:1000:rw'')
   \<and> isl (parse_acl_text ''user::rwx, user:1000:rw'')
   \<and> parse_acl_text ''user::rwx, group:7:r-x''
       = Inr [\<lparr>acl_type = 16, acl_id = 0, acl_permissions = 7\<rparr>,
              \<lparr>acl_type = 2, acl_id = 7, acl_permissions = 5\<rparr>]
   \<and> list_all2 perm_decoded (acl_entries ''user::rwx, group:7:r-x'')
       [\<lparr>acl_type = 16, acl_id = 0, acl_permissions = 7\<rparr>,
        \<lparr>acl_type = 2, acl_id = 7, acl_permissions = 5\<rparr>]"
proof -
  have a: "\<not> list_all perm_three (acl_entries ''user::rwx, user:1000:rw'')"
    by (simp add: acl_eval)
  have b: "parse_acl_text ''user::rwx, group:7:r-x''
       = Inr [\<lparr>acl_type = 16, acl_id = 0, acl_permissions = 7\<rparr>,
              \<lparr>acl_type = 2, acl_id = 7, acl_permissions = 5\<rparr>]"
    by (simp add: acl_eval)
  from a b acl_permission_length_and_bits [of "''user::rwx, user:1000:rw''"]
    acl_permission_length_and_bits [of "''user::rwx, group:7:r-x''"]
  show ?thesis by blast
qed

theorem acl_wrong_letters_accepted:
  "perm_part ''user::abc'' = Some ''abc''
   \<and> parse_acl_text ''user::abc'' = Inr [\<lparr>acl_type = 16, acl_id = 0, acl_permissions = 0\<rparr>]
   \<and> parse_acl_text ''user::xwr'' = Inr [\<lparr>acl_type = 16, acl_id = 0, acl_permissions = 2\<rparr>]"
  by (simp add: acl_eval)

section \<open>The end of the archive\<close>

lemma read_block_eq:
  "read_block s =
     (if 512 \<le> length (unread s)
      then (Inr (take 512 (unread s)), s\<lparr>position := position s + 512\<rparr>)
      else if unread s = []
      then (Inl (end_of_archive, ''Unexpected end of archive''), s\<lparr>position := position s\<rparr>)
      else (Inl (corrupt_archive, ''Incomplete block read''),
            s\<lparr>position := position s + length (unread s)\<rparr>))"
  by (auto simp: read_block_def stream_read_def BLOCK_SIZE_def at_end_def unread_def Let_def
      min_def)

lemma unread_advance:
  "512 \<le> length (unread s) \<Longrightarrow> unread (s\<lparr>position := position s + 512\<rparr>) = drop 512 (unread s)"
  by (simp add: unread_def add.commute)

lemma emit_not_end:
  "fst (case parse_header block of
          Inl e \<Rightarrow> (Done (Inl e), r3)
        | Inr metadata_result \<Rightarrow>
            let (gnu_res, r4) =
                  (if is_gnu_extension metadata_result
                   then process_gnu_extension metadata_result r3
                   else (Inr False, r3))
            in case gnu_res of
                 Inl e \<Rightarrow> (Done (Inl e), r4)
               | Inr True \<Rightarrow> (Again, r4)
               | Inr False \<Rightarrow>
                   let (pax_res, r5) =
                         (if is_pax_header metadata_result
                          then process_pax_header buf metadata_result r4
                          else (Inr False, r4))
                   in case pax_res of
                        Inl e \<Rightarrow> (Done (Inl e), r5)
                      | Inr True \<Rightarrow> (Again, r5)
                      | Inr False \<Rightarrow>
                          (case emit_entry metadata_result r5 of
                             (entry, r6) \<Rightarrow> (Done (Inr (Some entry)), r6)))
     \<noteq> Done (Inr None)"
  by (simp split: sum.splits prod.splits bool.splits)

lemma list_all_replicate:
  "list_all P (replicate n x) \<longleftrightarrow> n = 0 \<or> P x"
  by (induction n) auto

lemma skip_nothing:
  "current_entry r = None \<Longrightarrow> current_entry_data_remaining r = 0 \<Longrightarrow>
   current_entry_data_consumed r = 0 \<Longrightarrow> skip_current_entry_data r = (Inr (), r)"
  by (simp add: skip_current_entry_data_def)

text \<open>
  Claim C1, as the code has it.  Where a header is expected (the reader is not finished
  and the rest of the previous entry is skipped), \<open>next_entry\<close> ends the sequence
  without error exactly when no byte is left to read or the next two records are both
  all zero.  A zero record that is not followed by a second readable zero record (the
  stream ends there, or other bytes follow) is the corrupt-archive error.
\<close>

theorem end_of_sequence_iff:
  assumes "\<not> finished r" and "skip_current_entry_data r = (Inr (), r1)"
  shows "(fst (next_entry_step buf r) = Done (Inr None)
            \<longleftrightarrow> unread (stream r1) = []
                \<or> (1024 \<le> length (unread (stream r1))
                    \<and> list_all (\<lambda>b. b = NUL) (take 1024 (unread (stream r1)))))
         \<and> (512 \<le> length (unread (stream r1))
              \<and> list_all (\<lambda>b. b = NUL) (take 512 (unread (stream r1)))
              \<and> \<not> (1024 \<le> length (unread (stream r1))
                     \<and> list_all (\<lambda>b. b = NUL) (take 1024 (unread (stream r1))))
            \<longrightarrow> fst (next_entry_step buf r)
                  = Done (Inl (corrupt_archive, ''Single zero block in archive'')))"
proof -
  let ?u = "unread (stream r1)"
  have split_1024: "list_all (\<lambda>b. b = NUL) (take 1024 ?u)
      \<longleftrightarrow> list_all (\<lambda>b. b = NUL) (take 512 ?u)
          \<and> list_all (\<lambda>b. b = NUL) (take 512 (drop 512 ?u))"
  proof -
    have "take 1024 ?u = take 512 ?u @ take 512 (drop 512 ?u)"
      using take_add [of 512 512 ?u] by simp
    then show ?thesis by simp
  qed
  show ?thesis
  proof (cases "512 \<le> length ?u")
    case False
    then show ?thesis
      using assms
      by (auto simp: next_entry_step_def read_block_eq Let_def)
  next
    case True
    show ?thesis
    proof (cases "is_zero_block (take 512 ?u)")
      case False
      with True assms emit_not_end show ?thesis
        by (auto simp: next_entry_step_def read_block_eq Let_def split_1024 is_zero_block_def)
    next
      case z: True
      with True assms show ?thesis
        by (auto simp: next_entry_step_def read_block_eq Let_def split_1024 is_zero_block_def
            unread_advance)
    qed
  qed
qed

theorem end_of_sequence_iff_witness:
  "fst (next_entry_step pax_buffer (new_reader two_zero_records)) = Done (Inr None)
   \<and> fst (next_entry_step pax_buffer (new_reader empty_stream)) = Done (Inr None)
   \<and> fst (next_entry_step pax_buffer (new_reader zero_then_garbage))
       = Done (Inl (corrupt_archive, ''Single zero block in archive''))"
proof -
  have n: "\<not> finished (new_reader s)" for s by (simp add: new_reader_def)
  have k: "skip_current_entry_data (new_reader s) = (Inr (), new_reader s)" for s
    by (rule skip_nothing) (simp_all add: new_reader_def)
  have s [simp]: "stream (new_reader s) = s" for s by (simp add: new_reader_def)
  from end_of_sequence_iff [OF n [of two_zero_records] k, of pax_buffer]
  have a: "fst (next_entry_step pax_buffer (new_reader two_zero_records)) = Done (Inr None)"
    by (simp add: two_zero_records_def unread_def list_all_replicate)
  from end_of_sequence_iff [OF n [of empty_stream] k, of pax_buffer]
  have b: "fst (next_entry_step pax_buffer (new_reader empty_stream)) = Done (Inr None)"
    by (simp add: empty_stream_def unread_def)
  from end_of_sequence_iff [OF n [of zero_then_garbage] k, of pax_buffer]
  have c: "fst (next_entry_step pax_buffer (new_reader zero_then_garbage))
       = Done (Inl (corrupt_archive, ''Single zero block in archive''))"
    by (simp add: zero_then_garbage_def unread_def list_all_replicate)
  from a b c show ?thesis by simp
qed

theorem lone_zero_record_at_end_is_error:
  "unread one_zero_record = replicate 512 NUL
   \<and> next_entry pax_buffer (new_reader one_zero_record)
       = Some (Inl (corrupt_archive, ''Single zero block in archive''),
               (new_reader one_zero_record)\<lparr>stream := one_zero_record\<lparr>position := 512\<rparr>\<rparr>)"
  apply (subst next_entry.simps)
  apply (simp add: next_entry_step_def new_reader_def one_zero_record_def
      skip_current_entry_data_def read_block_eq unread_def is_zero_block_def Let_def
      list_all_replicate)
  done

section \<open>The iterator after an error\<close>

lemma new_reader_fields [simp]:
  "stream (new_reader s) = s" "pending_pax_headers (new_reader s) = []"
  "pending_gnu_extensions (new_reader s) = gnu_clear" "\<not> finished (new_reader s)"
  by (simp_all add: new_reader_def)

lemma increment_latched:
  "error_occurred it \<Longrightarrow> increment buf it r = Some (it, r)"
  by (simp add: increment_def)

lemma increments_latched:
  "error_occurred it \<Longrightarrow> increments buf n it r = Some (it, r)"
  by (induction n) (simp_all add: increment_latched)

lemma next_entry_short:
  "next_entry buf (new_reader short_stream)
     = Some (Inl (corrupt_archive, ''Incomplete block read''),
             (new_reader short_stream)\<lparr>stream := short_stream\<lparr>position := 3\<rparr>\<rparr>)"
  apply (subst next_entry.simps)
  apply (simp add: next_entry_step_def new_reader_def short_stream_def skip_current_entry_data_def
      read_block_def stream_read_def BLOCK_SIZE_def at_end_def Let_def)
  done

lemma new_reader_skip:
  "skip_current_entry_data (new_reader s) = (Inr (), new_reader s)"
  by (rule skip_nothing) (simp_all add: new_reader_def)

lemma next_entry_bad_magic:
  "next_entry buf (new_reader bad_magic_stream)
     = Some (Inl (invalid_header,
                  ''Not a POSIX ustar or GNU tar archive (magic: '' @ [CHR 0x27] @ [CHR 0x27]
                    @ '')''),
             (new_reader bad_magic_stream)\<lparr>stream := bad_magic_stream\<lparr>position := 512\<rparr>\<rparr>)"
proof -
  have m: "extract_string (h_magic (CHR ''x'' # replicate 511 NUL)) = []"
    by (simp add: header_field_defs)
  have p: "parse_header (CHR ''x'' # replicate 511 NUL)
      = Inl (invalid_header,
             ''Not a POSIX ustar or GNU tar archive (magic: '' @ [CHR 0x27] @ [CHR 0x27]
               @ '')'')"
    by (simp add: parse_header_def m is_gnu_tar_magic_def Let_def)
  have z: "\<not> is_zero_block (CHR ''x'' # replicate 511 NUL)"
    by (simp add: is_zero_block_def)
  have rb: "read_block bad_magic_stream
      = (Inr (CHR ''x'' # replicate 511 NUL), bad_magic_stream\<lparr>position := 512\<rparr>)"
    by (simp add: read_block_eq unread_def bad_magic_stream_def)
  show ?thesis
    apply (subst next_entry.simps)
    apply (simp add: next_entry_step_def new_reader_skip Let_def rb z p)
    apply (simp add: new_reader_def)
    done
qed

text \<open>
  Claim C9, as the code has it.  Once an advance of the iterator gets an error from
  \<open>next_entry\<close>, the iterator has its error flag set (\<open>has_error\<close>), compares equal
  to the end iterator and holds no entry; every later advance, however many, returns the
  same iterator and the same reader state, so no entry is yielded and the byte source is
  not read again.  Of the error itself nothing is kept: the iterator after the advance
  is the iterator before it with the flag set, the reader pointer cleared and the entry
  reset, whatever the error \<open>e\<close> was.
\<close>

theorem iterator_error_latch:
  assumes "reader_set it" and "\<not> error_occurred it" and "next_entry buf r = Some (Inl e, r')"
  shows "\<exists>it'. increment buf it r = Some (it', r') \<and> has_error it'
            \<and> iterator_eq it' end_iterator \<and> current it' = None
            \<and> (\<forall>n. increments buf n it' r' = Some (it', r'))
            \<and> it' = it\<lparr>error_occurred := True, reader_set := False, current := None\<rparr>"
proof -
  let ?it' = "it\<lparr>error_occurred := True, reader_set := False, current := None\<rparr>"
  have "increment buf it r = Some (?it', r')"
    using assms by (simp add: increment_def)
  moreover have "error_occurred ?it'" by simp
  ultimately show ?thesis
    by (intro exI [of _ ?it'])
       (simp add: has_error_def iterator_eq_def end_iterator_def increments_latched)
qed

theorem iterator_error_latch_witness:
  "\<exists>it' r'. begin_iterator pax_buffer (new_reader short_stream) = Some (it', r') \<and> has_error it'
      \<and> iterator_eq it' end_iterator \<and> current it' = None
      \<and> position (stream r') = 3
      \<and> increments pax_buffer 5 it' r' = Some (it', r')
      \<and> it' = \<lparr>reader_set = False, current = None, error_occurred = True\<rparr>"
  using iterator_error_latch [where buf = pax_buffer
      and it = "\<lparr>reader_set = True, current = None, error_occurred = False\<rparr>",
      OF _ _ next_entry_short]
  by (auto simp: begin_iterator_def)

text \<open>
  The error value is not retained.  A stream too short for a header fails with
  \<open>corrupt_archive\<close>, a record without tar magic fails with \<open>invalid_header\<close>, and the
  two iterators are equal in every member: the flag is all a caller can inspect.
\<close>

theorem iterator_error_value_discarded:
  "\<exists>e1 e2 r1 r2 it'.
     next_entry pax_buffer (new_reader short_stream) = Some (Inl e1, r1)
     \<and> next_entry pax_buffer (new_reader bad_magic_stream) = Some (Inl e2, r2)
     \<and> fst e1 = corrupt_archive \<and> fst e2 = invalid_header \<and> e1 \<noteq> e2
     \<and> begin_iterator pax_buffer (new_reader short_stream) = Some (it', r1)
     \<and> begin_iterator pax_buffer (new_reader bad_magic_stream) = Some (it', r2)
     \<and> it' = \<lparr>reader_set = False, current = None, error_occurred = True\<rparr>"
  by (simp add: next_entry_short next_entry_bad_magic begin_iterator_def increment_def)

section \<open>Emitting an entry\<close>

lemma apply_gnu_extensions_size [simp]:
  "msize (apply_gnu_extensions m ext) = msize m"
  "sparse_info (apply_gnu_extensions m ext) = sparse_info m"
  by (simp_all add: apply_gnu_extensions_def Let_def)

lemma apply_pax_headers_size:
  "map_of headers ''size'' = Some v \<Longrightarrow>
   sparse_info (fst (apply_pax_headers headers m)) = None \<Longrightarrow>
   msize (fst (apply_pax_headers headers m))
     = (case from_chars_unsigned 64 v of Some n \<Rightarrow> n | None \<Rightarrow> msize m)"
  by (auto simp: apply_pax_headers_def Let_def split: option.splits if_splits)

lemma apply_pending_sparse_keeps [simp]:
  "path (fst (apply_pending_sparse fm r)) = path fm"
  "msize (fst (apply_pending_sparse fm r)) = msize fm"
  by (simp_all add: apply_pending_sparse_def)

lemma apply_pending_sparse_none:
  "sparse_info (fst (apply_pending_sparse fm r)) = None \<Longrightarrow> sparse_info fm = None"
  by (auto simp: apply_pending_sparse_def split: if_splits)

lemma process_sparse_1_0_keeps [simp]:
  "path (fst (process_sparse_1_0 fm r)) = path fm"
  "msize (fst (process_sparse_1_0 fm r)) = msize fm"
  by (simp_all add: process_sparse_1_0_def split: prod.splits sum.splits)

lemma process_sparse_1_0_none:
  "sparse_info (fst (process_sparse_1_0 fm r)) = None \<Longrightarrow> sparse_info fm = None"
  by (auto simp: process_sparse_1_0_def split: if_splits prod.splits sum.splits)

lemma emit_entry_fields:
  "path (fst (emit_entry m r))
     = path (fst (apply_pending_pax (apply_gnu_extensions m (pending_gnu_extensions r))
                    (r\<lparr>pending_gnu_extensions := gnu_clear\<rparr>)))"
  "sparse_info (fst (emit_entry m r)) = None \<Longrightarrow>
     msize (fst (emit_entry m r))
       = msize (fst (apply_pending_pax (apply_gnu_extensions m (pending_gnu_extensions r))
                       (r\<lparr>pending_gnu_extensions := gnu_clear\<rparr>)))
     \<and> sparse_info (fst (apply_pending_pax (apply_gnu_extensions m (pending_gnu_extensions r))
                       (r\<lparr>pending_gnu_extensions := gnu_clear\<rparr>))) = None"
  "sparse_info (fst (emit_entry m r)) = Some sp \<Longrightarrow> msize (fst (emit_entry m r)) = real_size sp"
proof -
  let ?p = "apply_pending_pax (apply_gnu_extensions m (pending_gnu_extensions r))
              (r\<lparr>pending_gnu_extensions := gnu_clear\<rparr>)"
  let ?s = "apply_pending_sparse (fst ?p) (snd ?p)"
  let ?q = "process_sparse_1_0 (fst ?s) (snd ?s)"
  have e: "fst (emit_entry m r)
      = (case sparse_info (fst ?q) of
           Some sp \<Rightarrow> (fst ?q)\<lparr>msize := real_size sp\<rparr>
         | None \<Rightarrow> fst ?q)"
    by (simp add: emit_entry_def Let_def split: prod.splits option.splits)
  show "path (fst (emit_entry m r)) = path (fst ?p)"
    by (simp add: e split: option.splits)
  show "msize (fst (emit_entry m r)) = msize (fst ?p) \<and> sparse_info (fst ?p) = None"
    if "sparse_info (fst (emit_entry m r)) = None"
  proof -
    from that have "sparse_info (fst ?q) = None"
      by (simp add: e split: option.splits)
    then show ?thesis
      by (auto simp: e dest!: process_sparse_1_0_none apply_pending_sparse_none)
  qed
  show "msize (fst (emit_entry m r)) = real_size sp"
    if "sparse_info (fst (emit_entry m r)) = Some sp"
    using that by (simp add: e split: option.splits)
qed

lemma emit_entry_size:
  assumes "map_of (pending_pax_headers r) ''size'' = Some v"
  shows "msize (fst (emit_entry m r))
     = (case sparse_info (fst (emit_entry m r)) of
          Some sp \<Rightarrow> real_size sp
        | None \<Rightarrow> (case from_chars_unsigned 64 v of Some n \<Rightarrow> n | None \<Rightarrow> msize m))"
proof (cases "sparse_info (fst (emit_entry m r))")
  case (Some sp)
  then show ?thesis by (simp add: emit_entry_fields(3))
next
  case None
  from assms have ne: "pending_pax_headers r \<noteq> []" by auto
  let ?fm = "apply_gnu_extensions m (pending_gnu_extensions r)"
  from emit_entry_fields(2) [OF None]
  have "msize (fst (emit_entry m r)) = msize (fst (apply_pax_headers (pending_pax_headers r) ?fm))"
    and "sparse_info (fst (apply_pax_headers (pending_pax_headers r) ?fm)) = None"
    by (simp_all add: apply_pending_pax_def ne split: prod.splits)
  with apply_pax_headers_size [OF assms, of ?fm] None show ?thesis
    by (simp split: option.splits)
qed

lemma apply_pax_headers_names:
  "path (fst (apply_pax_headers headers m))
     = (case map_of headers ''path'' of Some v \<Rightarrow> v | None \<Rightarrow> path m)"
  "link_target (fst (apply_pax_headers headers m)) = link_target m"
  by (simp_all add: apply_pax_headers_def Let_def split: option.splits)

lemma apply_pending_pax_names:
  "path (fst (apply_pending_pax fm r))
     = (case map_of (pending_pax_headers r) ''path'' of Some v \<Rightarrow> v | None \<Rightarrow> path fm)"
  "link_target (fst (apply_pending_pax fm r)) = link_target fm"
  by (simp_all add: apply_pending_pax_def case_prod_beta apply_pax_headers_names)

lemma sparse_stages_link [simp]:
  "link_target (fst (apply_pending_sparse fm r)) = link_target fm"
  "link_target (fst (process_sparse_1_0 fm r)) = link_target fm"
  by (simp_all add: apply_pending_sparse_def process_sparse_1_0_def
      split: prod.splits sum.splits)

lemma apply_gnu_extensions_names:
  "path (apply_gnu_extensions m ext) = (if longname ext = [] then path m else longname ext)"
  "link_target (apply_gnu_extensions m ext)
     = (if longlink ext = [] then link_target m else Some (longlink ext))"
  by (simp_all add: apply_gnu_extensions_def has_longname_def has_longlink_def Let_def)

lemma emit_entry_names:
  "path (fst (emit_entry m r))
     = (case map_of (pending_pax_headers r) ''path'' of
          Some v \<Rightarrow> v
        | None \<Rightarrow> (if longname (pending_gnu_extensions r) = [] then path m
                   else longname (pending_gnu_extensions r)))"
  "link_target (fst (emit_entry m r))
     = (if longlink (pending_gnu_extensions r) = [] then link_target m
        else Some (longlink (pending_gnu_extensions r)))"
proof -
  let ?p = "apply_pending_pax (apply_gnu_extensions m (pending_gnu_extensions r))
              (r\<lparr>pending_gnu_extensions := gnu_clear\<rparr>)"
  let ?s = "apply_pending_sparse (fst ?p) (snd ?p)"
  let ?q = "process_sparse_1_0 (fst ?s) (snd ?s)"
  have e: "fst (emit_entry m r)
      = (case sparse_info (fst ?q) of
           Some sp \<Rightarrow> (fst ?q)\<lparr>msize := real_size sp\<rparr>
         | None \<Rightarrow> fst ?q)"
    by (simp add: emit_entry_def Let_def split: prod.splits option.splits)
  show "path (fst (emit_entry m r))
     = (case map_of (pending_pax_headers r) ''path'' of
          Some v \<Rightarrow> v
        | None \<Rightarrow> (if longname (pending_gnu_extensions r) = [] then path m
                   else longname (pending_gnu_extensions r)))"
    by (simp add: emit_entry_fields(1) apply_pending_pax_names apply_gnu_extensions_names
        split: option.splits)
  have "link_target (fst (emit_entry m r)) = link_target (fst ?q)"
    by (simp add: e split: option.splits)
  then show "link_target (fst (emit_entry m r))
     = (if longlink (pending_gnu_extensions r) = [] then link_target m
        else Some (longlink (pending_gnu_extensions r)))"
    by (simp add: apply_pending_pax_names apply_gnu_extensions_names)
qed

section \<open>Reading the bytes of a record\<close>

lemma stream_read_eq:
  "stream_read n s = (Inr (take n (unread s)), s\<lparr>position := position s + min n (length (unread s))\<rparr>)"
  by (simp add: stream_read_def unread_def Let_def min_def)

lemma unread_skip:
  "unread (s\<lparr>position := position s + k\<rparr>) = drop k (unread s)"
  by (simp add: unread_def add.commute)

lemma read_extension_loop_ok:
  "remaining \<le> length (unread s) \<Longrightarrow>
   read_extension_loop remaining acc s
     = (Inr (acc @ take remaining (unread s)), s\<lparr>position := position s + remaining\<rparr>)"
proof (induction remaining acc s rule: read_extension_loop.induct)
  case (1 remaining result s)
  show ?case
  proof (cases "remaining > 0")
    case False
    then show ?thesis by (subst read_extension_loop.simps) simp
  next
    case True
    let ?k = "min remaining BLOCK_SIZE"
    let ?s' = "s\<lparr>position := position s + ?k\<rparr>"
    have k: "0 < ?k" "?k \<le> remaining" "?k \<le> length (unread s)"
      using True "1.prems" by (simp_all add: BLOCK_SIZE_def)
    have rd: "stream_read ?k s = (Inr (take ?k (unread s)), ?s')"
      using k by (simp add: stream_read_eq min_def)
    have len: "length (take ?k (unread s)) = ?k"
      using k by simp
    have "remaining - ?k \<le> length (unread ?s')"
      using "1.prems" k by (simp add: unread_skip)
    from "1.IH" [OF True rd [symmetric] refl _ ] len k this
    have "read_extension_loop (remaining - ?k) (result @ take ?k (unread s)) ?s'
        = (Inr ((result @ take ?k (unread s)) @ take (remaining - ?k) (unread ?s')),
           ?s'\<lparr>position := position ?s' + (remaining - ?k)\<rparr>)"
      by simp
    moreover have "take ?k (unread s) @ take (remaining - ?k) (drop ?k (unread s))
        = take remaining (unread s)"
      using k take_add [of ?k "remaining - ?k" "unread s"] by simp
    ultimately show ?thesis
      using True rd len k
      by (subst read_extension_loop.simps) (simp add: unread_skip)
  qed
qed

lemma strip_trailing_nuls_decompose:
  "\<exists>k. xs = strip_trailing_nuls xs @ replicate k NUL"
proof -
  have "\<exists>k. ys = replicate k NUL @ dropWhile (\<lambda>c. c = NUL) ys" for ys :: string
  proof (induction ys)
    case Nil
    then show ?case by simp
  next
    case (Cons y ys)
    then obtain k where k: "ys = replicate k NUL @ dropWhile (\<lambda>c. c = NUL) ys" by blast
    show ?case
    proof (cases "y = NUL")
      case True
      with k have "y # ys = replicate (Suc k) NUL @ dropWhile (\<lambda>c. c = NUL) (y # ys)" by simp
      then show ?thesis by blast
    next
      case False
      then have "y # ys = replicate 0 NUL @ dropWhile (\<lambda>c. c = NUL) (y # ys)" by simp
      then show ?thesis by blast
    qed
  qed
  then obtain k where "rev xs = replicate k NUL @ dropWhile (\<lambda>c. c = NUL) (rev xs)" by blast
  then have "rev (rev xs) = rev (replicate k NUL @ dropWhile (\<lambda>c. c = NUL) (rev xs))" by simp
  then have "xs = strip_trailing_nuls xs @ replicate k NUL"
    by (simp add: strip_trailing_nuls_def)
  then show ?thesis by blast
qed

lemma strip_trailing_nuls_last:
  "strip_trailing_nuls xs = [] \<or> last (strip_trailing_nuls xs) \<noteq> NUL"
proof (cases "dropWhile (\<lambda>c. c = NUL) (rev xs)")
  case Nil
  then show ?thesis by (simp add: strip_trailing_nuls_def)
next
  case (Cons y ys)
  then have "y \<noteq> NUL"
    using hd_dropWhile [of "\<lambda>c. c = NUL" "rev xs"] by auto
  with Cons show ?thesis by (simp add: strip_trailing_nuls_def)
qed

lemma strip_trailing_nuls_append [simp]:
  "strip_trailing_nuls (xs @ replicate k NUL) = strip_trailing_nuls xs"
proof -
  have "dropWhile (\<lambda>c. c = NUL) (replicate k NUL @ ys) = dropWhile (\<lambda>c. c = NUL) ys"
    for ys :: string
    by (induction k) simp_all
  then show ?thesis by (simp add: strip_trailing_nuls_def)
qed

lemma stream_skip_ok:
  "k \<le> length (unread s) \<Longrightarrow> position s \<le> length (data s) \<Longrightarrow> length (data s) < 2 ^ 64 \<Longrightarrow>
   stream_skip k s = (Inr (), s\<lparr>position := position s + k\<rparr>)"
  by (simp add: stream_skip_def unread_def u64_def)

lemma read_gnu_extension_data_ok:
  assumes "n + padding_of n \<le> length (unread s)" and "position s \<le> length (data s)"
    and "length (data s) < 2 ^ 64"
  shows "read_gnu_extension_data s n
     = (Inr (strip_trailing_nuls (take n (unread s))),
        s\<lparr>position := position s + n + padding_of n\<rparr>)"
proof (cases "n = 0")
  case True
  then show ?thesis
    by (simp add: read_gnu_extension_data_def strip_trailing_nuls_def padding_of_def
        BLOCK_SIZE_def)
next
  case False
  let ?s1 = "s\<lparr>position := position s + n\<rparr>"
  have loop: "read_extension_loop n [] s = (Inr (take n (unread s)), ?s1)"
    using read_extension_loop_ok [of n s "[]"] assms by simp
  have "padding_of n \<le> length (unread ?s1)" "position ?s1 \<le> length (data ?s1)"
    using assms by (simp_all add: unread_skip) (simp add: unread_def)
  from stream_skip_ok [OF this] assms(3)
  have "stream_skip (padding_of n) ?s1 = (Inr (), s\<lparr>position := position s + n + padding_of n\<rparr>)"
    by simp
  with False loop show ?thesis
    by (simp add: read_gnu_extension_data_def)
qed

lemma unread_split:
  assumes "unread s = a @ b" and "position s \<le> length (data s)"
  shows "unread (s\<lparr>position := position s + length a\<rparr>) = b"
    and "position s + length a \<le> length (data s)"
proof -
  from assms(1) show "unread (s\<lparr>position := position s + length a\<rparr>) = b"
    by (simp add: unread_skip)
  from assms(1) have "length (unread s) = length a + length b" by simp
  with assms(2) show "position s + length a \<le> length (data s)"
    by (simp add: unread_def)
qed

lemma stream_read_ok:
  "unread s = a @ b \<Longrightarrow>
   stream_read (length a) s = (Inr a, s\<lparr>position := position s + length a\<rparr>)"
  by (simp add: stream_read_eq)

lemma skip_padding_ok:
  assumes "unread s = pad @ b" and "length pad = padding_of n"
    and "position s \<le> length (data s)" and "length (data s) < 2 ^ 64"
  shows "skip_padding n s = (Inr (), s\<lparr>position := position s + length pad\<rparr>)"
proof (cases "padding_of n > 0")
  case True
  from assms(1,2) have "padding_of n \<le> length (unread s)" by simp
  from stream_skip_ok [OF this assms(3,4)] True assms(2) show ?thesis
    by (simp add: skip_padding_def)
next
  case False
  with assms(2) show ?thesis by (simp add: skip_padding_def)
qed

section \<open>One pass of \<open>next_entry\<close> over a record\<close>

text \<open>
  What one pass does when the bytes ahead are a whole record: a PAX \<open>x\<close> record or a
  GNU \<open>L\<close> or \<open>K\<close> record is consumed with its data and padding and leaves its
  content pending, and \<open>next_entry\<close> goes on with the record behind it; any other
  header is handed to \<open>emit_entry\<close>.
\<close>

lemma step_emits:
  assumes "\<not> finished r" and "skip_current_entry_data r = (Inr (), r1)"
    and "read_block (stream r1) = (Inr block, s3)" and "\<not> is_zero_block block"
    and "parse_header block = Inr m" and "\<not> is_gnu_extension m" and "\<not> is_pax_header m"
  shows "next_entry_step buf r
     = (Done (Inr (Some (fst (emit_entry m (at_header r1 s3))))),
        snd (emit_entry m (at_header r1 s3)))"
  using assms
  by (simp add: next_entry_step_def at_header_def Let_def split: prod.splits)

lemma skip_keeps_pending:
  "skip_current_entry_data r = (res, r1) \<Longrightarrow>
     pending_pax_headers r1 = pending_pax_headers r
     \<and> pending_gnu_extensions r1 = pending_gnu_extensions r"
  by (auto simp: skip_current_entry_data_def Let_def split: prod.splits sum.splits if_splits)

lemma at_header_pending [simp]:
  "pending_pax_headers (at_header r1 s3) = pending_pax_headers r1"
  "pending_gnu_extensions (at_header r1 s3) = pending_gnu_extensions r1"
  by (simp_all add: at_header_def)

lemma skip_keeps_finished:
  "skip_current_entry_data r = (res, r1) \<Longrightarrow> finished r1 = finished r"
  by (auto simp: skip_current_entry_data_def Let_def split: prod.splits sum.splits if_splits)

lemma step_of_pieces:
  assumes "\<not> finished r" and "skip_current_entry_data r = (Inr (), r1)"
  shows "next_entry_step buf r = next_entry_step buf (at_header r1 (stream r1))"
proof -
  have k: "skip_current_entry_data (at_header r1 (stream r1))
             = (Inr (), at_header r1 (stream r1))"
    by (rule skip_nothing) (simp_all add: at_header_def)
  have f: "\<not> finished (at_header r1 (stream r1))"
    using skip_keeps_finished [OF assms(2)] assms(1) by (simp add: at_header_def)
  have e: "at_header r1 (stream r1)
             \<lparr>current_entry := None, current_entry_data_remaining := 0,
               current_entry_data_consumed := 0\<rparr>
           = r1\<lparr>current_entry := None, current_entry_data_remaining := 0,
                 current_entry_data_consumed := 0\<rparr>"
    by (simp add: at_header_def)
  have st: "stream (at_header r1 (stream r1)) = stream r1"
    by (simp add: at_header_def)
  show ?thesis
    using assms(1) f by (simp add: next_entry_step_def assms(2) k e st)
qed

lemma next_entry_of_pieces:
  assumes "\<not> finished r" and "skip_current_entry_data r = (Inr (), r1)"
  shows "next_entry buf r = next_entry buf (at_header r1 (stream r1))"
  by (subst next_entry.simps, subst (2) next_entry.simps)
     (simp add: step_of_pieces [OF assms])

lemma header_expected_of_pieces:
  assumes "\<not> finished r" and "skip_current_entry_data r = (Inr (), r1)"
    and "unread (stream r1) = bs" and "position (stream r1) \<le> length (data (stream r1))"
    and "length (data (stream r1)) < 2 ^ 64"
  shows "header_expected (at_header r1 (stream r1)) bs"
  using assms skip_keeps_finished [OF assms(2)]
  by (simp add: header_expected_def at_header_def)

lemma header_expected_read:
  assumes "header_expected r (hdr @ tail)" and "length hdr = 512"
  shows "skip_current_entry_data r
           = (Inr (), r\<lparr>current_entry_data_remaining := 0, current_entry_data_consumed := 0\<rparr>)"
    and "read_block (stream r) = (Inr hdr, (stream r)\<lparr>position := position (stream r) + 512\<rparr>)"
    and "unread ((stream r)\<lparr>position := position (stream r) + 512\<rparr>) = tail"
  using assms
  by (simp_all add: header_expected_def skip_current_entry_data_def read_block_eq unread_skip)

lemma step_gnu:
  assumes "\<not> finished r" and "skip_current_entry_data r = (Inr (), r1)"
    and "read_block (stream r1) = (Inr block, s3)" and "\<not> is_zero_block block"
    and "parse_header block = Inr m" and "is_gnu_extension m"
    and "process_gnu_extension m (at_header r1 s3) = (Inr True, r4)"
  shows "next_entry_step buf r = (Again, r4)"
  using assms
  by (simp add: next_entry_step_def at_header_def Let_def)

lemma step_pax:
  assumes "\<not> finished r" and "skip_current_entry_data r = (Inr (), r1)"
    and "read_block (stream r1) = (Inr block, s3)" and "\<not> is_zero_block block"
    and "parse_header block = Inr m" and "\<not> is_gnu_extension m" and "is_pax_header m"
    and "process_pax_header buf m (at_header r1 s3) = (Inr True, r5)"
  shows "next_entry_step buf r = (Again, r5)"
  using assms
  by (simp add: next_entry_step_def at_header_def Let_def)

lemma advanced_pending [simp]:
  "pending_pax_headers (advanced r k) = pending_pax_headers r"
  "pending_gnu_extensions (advanced r k) = pending_gnu_extensions r"
  by (simp_all add: advanced_def at_header_def)

lemma next_entry_again:
  "next_entry_step buf r = (Again, r') \<Longrightarrow> next_entry buf r = next_entry buf r'"
  by (subst next_entry.simps) simp

lemma next_entry_done:
  "next_entry_step buf r = (Done res, r') \<Longrightarrow> next_entry buf r = Some (res, r')"
  by (subst next_entry.simps) simp

lemma pax_round:
  assumes he: "header_expected r (xhdr @ pax_data @ xpad @ tail)"
    and x: "length xhdr = 512" "\<not> is_zero_block xhdr" "parse_header xhdr = Inr xm"
      "mtype xm = pax_extended_header" "msize xm = length pax_data"
      "length xpad = padding_of (length pax_data)"
    and p: "parse_pax_headers buf pax_data = Inr headers"
  shows "next_entry_step buf r
           = (Again, (advanced r (512 + length pax_data + length xpad))
                       \<lparr>pending_pax_headers := headers\<rparr>)"
    and "header_expected ((advanced r (512 + length pax_data + length xpad))
                            \<lparr>pending_pax_headers := headers\<rparr>) tail"
proof -
  let ?s = "stream r"
  let ?r1 = "r\<lparr>current_entry_data_remaining := 0, current_entry_data_consumed := 0\<rparr>"
  let ?s3 = "?s\<lparr>position := position ?s + 512\<rparr>"
  let ?s4 = "?s3\<lparr>position := position ?s3 + length pax_data\<rparr>"
  let ?s5 = "?s4\<lparr>position := position ?s4 + length xpad\<rparr>"
  let ?r' = "(at_header ?r1 ?s5)\<lparr>pending_pax_headers := headers\<rparr>"
  from he have b: "position ?s \<le> length (data ?s)" "length (data ?s) < 2 ^ 64"
    and nf: "\<not> finished r" and u: "unread ?s = xhdr @ pax_data @ xpad @ tail"
    by (simp_all add: header_expected_def)
  note rd = header_expected_read [OF he x(1)]
  from unread_split [OF u b(1)] x(1)
  have u3: "unread ?s3 = pax_data @ xpad @ tail" and b3: "position ?s3 \<le> length (data ?s3)"
    by simp_all
  from unread_split [OF u3 b3]
  have u4: "unread ?s4 = xpad @ tail" and b4: "position ?s4 \<le> length (data ?s4)"
    by simp_all
  from unread_split [OF u4 b4]
  have u5: "unread ?s5 = tail" and b5: "position ?s5 \<le> length (data ?s5)"
    by simp_all
  have r4: "stream_read (length pax_data) ?s3 = (Inr pax_data, ?s4)"
    using stream_read_ok [OF u3] by simp
  have k5: "skip_padding (length pax_data) ?s4 = (Inr (), ?s5)"
    using skip_padding_ok [OF u4 _ b4, of "length pax_data"] x(6) b(2) by simp
  have pp: "process_pax_header buf xm (at_header ?r1 ?s3) = (Inr True, ?r')"
    using x(4,5) p
    by (simp add: process_pax_header_def at_header_def r4 [simplified] k5 [simplified])
  have kind: "\<not> is_gnu_extension xm" "is_pax_header xm"
    using x(4)
    by (simp_all add: is_gnu_extension_def is_pax_header_def is_gnu_longname_def
        is_gnu_longlink_def pax_extended_header_def gnu_longname_def gnu_longlink_def
        gnu_sparse_def gnu_volhdr_def gnu_multivol_def)
  have eq: "?r' = (advanced r (512 + length pax_data + length xpad))
                    \<lparr>pending_pax_headers := headers\<rparr>"
    by (simp add: advanced_def at_header_def add.assoc)
  have st: "next_entry_step buf r = (Again, ?r')"
    by (rule step_pax [OF nf rd(1) _ x(2) x(3) kind pp]) (simp add: rd(2))
  then show "next_entry_step buf r
           = (Again, (advanced r (512 + length pax_data + length xpad))
                       \<lparr>pending_pax_headers := headers\<rparr>)"
    by (simp only: eq)
  have "header_expected ?r' tail"
    using nf u5 b5 b(2) by (simp add: header_expected_def at_header_def)
  then show "header_expected ((advanced r (512 + length pax_data + length xpad))
                            \<lparr>pending_pax_headers := headers\<rparr>) tail"
    by (simp only: eq)
qed

lemma gnu_name_round:
  assumes he: "header_expected r (ehdr @ payload @ epad @ tail)"
    and x: "length ehdr = 512" "\<not> is_zero_block ehdr" "parse_header ehdr = Inr em"
      "mtype em = gnu_longname \<or> mtype em = gnu_longlink" "msize em = length payload"
      "length epad = padding_of (length payload)"
  shows "next_entry_step buf r
           = (Again, (advanced r (512 + length payload + length epad))
                \<lparr>pending_gnu_extensions :=
                   if mtype em = gnu_longname
                   then (pending_gnu_extensions r)\<lparr>longname := strip_trailing_nuls payload\<rparr>
                   else (pending_gnu_extensions r)\<lparr>longlink := strip_trailing_nuls payload\<rparr>\<rparr>)"
    and "header_expected ((advanced r (512 + length payload + length epad))
                \<lparr>pending_gnu_extensions :=
                   if mtype em = gnu_longname
                   then (pending_gnu_extensions r)\<lparr>longname := strip_trailing_nuls payload\<rparr>
                   else (pending_gnu_extensions r)\<lparr>longlink := strip_trailing_nuls payload\<rparr>\<rparr>)
             tail"
proof -
  let ?s = "stream r"
  let ?r1 = "r\<lparr>current_entry_data_remaining := 0, current_entry_data_consumed := 0\<rparr>"
  let ?s3 = "?s\<lparr>position := position ?s + 512\<rparr>"
  let ?n = "length payload"
  let ?s5 = "?s3\<lparr>position := position ?s3 + ?n + padding_of ?n\<rparr>"
  let ?ext = "if mtype em = gnu_longname
              then (pending_gnu_extensions r)\<lparr>longname := strip_trailing_nuls payload\<rparr>
              else (pending_gnu_extensions r)\<lparr>longlink := strip_trailing_nuls payload\<rparr>"
  let ?r' = "(at_header ?r1 ?s5)\<lparr>pending_gnu_extensions := ?ext\<rparr>"
  from he have b: "position ?s \<le> length (data ?s)" "length (data ?s) < 2 ^ 64"
    and nf: "\<not> finished r" and u: "unread ?s = ehdr @ payload @ epad @ tail"
    by (simp_all add: header_expected_def)
  note rd = header_expected_read [OF he x(1)]
  from unread_split [OF u b(1)] x(1)
  have u3: "unread ?s3 = payload @ epad @ tail" and b3: "position ?s3 \<le> length (data ?s3)"
    by simp_all
  have u3': "unread ?s3 = (payload @ epad) @ tail" using u3 by simp
  from unread_split [OF u3' b3] x(6)
  have u5: "unread ?s5 = tail" and b5: "position ?s5 \<le> length (data ?s5)"
    by (simp_all add: add.assoc)
  have "?n + padding_of ?n \<le> length (unread ?s3)" using u3 x(6) by simp
  from read_gnu_extension_data_ok [OF this b3] b(2) u3
  have rg: "read_gnu_extension_data ?s3 (length payload)
      = (Inr (strip_trailing_nuls payload), ?s5)"
    by simp
  have ne: "gnu_longname \<noteq> gnu_longlink"
    by (simp add: gnu_longname_def gnu_longlink_def)
  have pg: "process_gnu_extension em (at_header ?r1 ?s3) = (Inr True, ?r')"
    using x(4) ne
    by (auto simp: process_gnu_extension_def is_gnu_longname_def is_gnu_longlink_def
        at_header_def x(5) rg [simplified])
  have kind: "is_gnu_extension em"
    using x(4) by (auto simp: is_gnu_extension_def is_gnu_longname_def is_gnu_longlink_def)
  have eq: "?r' = (advanced r (512 + length payload + length epad))
                    \<lparr>pending_gnu_extensions := ?ext\<rparr>"
    using x(6) by (simp add: advanced_def at_header_def add.assoc)
  have st: "next_entry_step buf r = (Again, ?r')"
    by (rule step_gnu [OF nf rd(1) _ x(2) x(3) kind pg]) (simp add: rd(2))
  then show "next_entry_step buf r
               = (Again, (advanced r (512 + length payload + length epad))
                           \<lparr>pending_gnu_extensions := ?ext\<rparr>)"
    by (simp only: eq)
  have "header_expected ?r' tail"
    using nf u5 b5 b(2) by (simp add: header_expected_def at_header_def)
  then show "header_expected ((advanced r (512 + length payload + length epad))
                                \<lparr>pending_gnu_extensions := ?ext\<rparr>) tail"
    by (simp only: eq)
qed

lemma emit_round:
  assumes he: "header_expected r (hdr @ tail)"
    and x: "length hdr = 512" "\<not> is_zero_block hdr" "parse_header hdr = Inr m"
      "\<not> is_gnu_extension m" "\<not> is_pax_header m"
  shows "next_entry_step buf r
            = (Done (Inr (Some (fst (emit_entry m (advanced r 512))))),
               snd (emit_entry m (advanced r 512)))"
proof -
  let ?r1 = "r\<lparr>current_entry_data_remaining := 0, current_entry_data_consumed := 0\<rparr>"
  let ?s3 = "(stream r)\<lparr>position := position (stream r) + 512\<rparr>"
  from he have nf: "\<not> finished r" by (simp add: header_expected_def)
  note rd = header_expected_read [OF he x(1)]
  have "next_entry_step buf r
     = (Done (Inr (Some (fst (emit_entry m (at_header ?r1 ?s3))))),
        snd (emit_entry m (at_header ?r1 ?s3)))"
    by (rule step_emits [OF nf rd(1) _ x(2-5)]) (simp add: rd(2))
  then show ?thesis by (simp add: advanced_def at_header_def)
qed

lemma emit_final:
  assumes "header_expected r (hdr @ tail)"
    and "length hdr = 512" "\<not> is_zero_block hdr" "parse_header hdr = Inr m"
      "\<not> is_gnu_extension m" "\<not> is_pax_header m"
  shows "next_entry buf r
           = Some (Inr (Some (fst (emit_entry m (advanced r 512)))),
                   snd (emit_entry m (advanced r 512)))"
  by (rule next_entry_done [OF emit_round [OF assms]])

lemma start_at_header:
  assumes "\<not> finished r" and "skip_current_entry_data r = (Inr (), r1)"
    and "unread (stream r1) = bs" and "bs \<noteq> []"
    and "length (data (stream r1)) < 2 ^ 64"
  shows "\<exists>r0. next_entry buf r = next_entry buf r0 \<and> header_expected r0 bs
           \<and> pending_pax_headers r0 = pending_pax_headers r
           \<and> pending_gnu_extensions r0 = pending_gnu_extensions r"
proof -
  have "position (stream r1) \<le> length (data (stream r1))"
  proof (rule ccontr)
    assume "\<not> position (stream r1) \<le> length (data (stream r1))"
    then have "unread (stream r1) = []" by (simp add: unread_def)
    with assms(3,4) show False by simp
  qed
  from header_expected_of_pieces [OF assms(1,2,3) this assms(5)]
    next_entry_of_pieces [OF assms(1,2), of buf] skip_keeps_pending [OF assms(2)]
  show ?thesis by (intro exI [of _ "at_header r1 (stream r1)"]) simp
qed


section \<open>PAX overrides of path and size\<close>

lemma parse_pax_loop_nuls [simp]:
  "parse_pax_loop pos (replicate n NUL) result = Inr result"
  by (subst parse_pax_loop.simps) (cases n; simp)

lemmas pax_eval = parse_pax_headers_def parse_pax_loop.simps [of _ "_ # _"] pax_payload_def
  from_chars_unsigned_def is_digit_char_def decimal_value_def digit_of_def u64_def
  pax_buffer_def Let_def


lemma parse_size_record:
  "parse_pax_headers pax_buffer (pax_payload size_record) = Inr [(''size'', ''abc'')]"
  by (simp add: pax_eval size_record_def)

lemma parse_size_prefix_record:
  "parse_pax_headers pax_buffer (pax_payload size_prefix_record) = Inr [(''size'', ''12abc'')]"
  by (simp add: pax_eval size_prefix_record_def)

lemma parse_sparse_size_records:
  "parse_pax_headers pax_buffer (pax_payload sparse_size_records)
     = Inr [(''size'', ''abc''), (''GNU.sparse.major'', ''1''), (''GNU.sparse.minor'', ''0''),
            (''GNU.sparse.realsize'', ''2048'')]"
  by (simp add: pax_eval sparse_size_records_def)

lemma pax_archive_expected:
  "length records \<le> 128 \<Longrightarrow>
   header_expected (new_reader (pax_archive records))
     (pax_header @ pax_payload records @ replicate 384 NUL @ plain_header @ [])"
  by (simp add: header_expected_def new_reader_def unread_def pax_archive_def plain_length)

lemma pax_archive_run:
  assumes "length records \<le> 128"
    and "parse_pax_headers pax_buffer (pax_payload records) = Inr headers"
  shows "next_entry pax_buffer (new_reader (pax_archive records))
     = Some (Inr (Some (fst (emit_entry (default_metadata\<lparr>path := ''a'', permissions := 0\<rparr>)
                (advanced ((advanced (new_reader (pax_archive records)) 1024)
                             \<lparr>pending_pax_headers := headers\<rparr>) 512)))),
             snd (emit_entry (default_metadata\<lparr>path := ''a'', permissions := 0\<rparr>)
                (advanced ((advanced (new_reader (pax_archive records)) 1024)
                             \<lparr>pending_pax_headers := headers\<rparr>) 512)))"
proof -
  let ?r = "new_reader (pax_archive records)"
  let ?xm = "default_metadata\<lparr>path := ''PaxHeader'', mtype := pax_extended_header,
                              permissions := 0, msize := 128\<rparr>"
  have t: "mtype ?xm = pax_extended_header" by simp
  have z: "msize ?xm = length (pax_payload records)" using assms(1) by simp
  have p: "length (replicate 384 NUL) = padding_of (length (pax_payload records))"
    using assms(1) by (simp add: padding_of_values)
  note round = pax_round [OF pax_archive_expected [OF assms(1)] fixture_lengths(1)
      fixture_not_zero(1) parse_pax_header t z p assms(2)]
  have k: "512 + length (pax_payload records) + length (replicate 384 NUL) = 1024"
    using assms(1) by simp
  from round(1) have a: "next_entry pax_buffer ?r
      = next_entry pax_buffer ((advanced ?r 1024)\<lparr>pending_pax_headers := headers\<rparr>)"
    unfolding k by (rule next_entry_again)
  from round(2) have "header_expected ((advanced ?r 1024)\<lparr>pending_pax_headers := headers\<rparr>)
      (plain_header @ [])"
    unfolding k .
  from emit_final [OF this plain_length plain_not_zero parse_plain_header
      plain_metadata_kind(1) plain_metadata_kind(2), of pax_buffer] a
  show ?thesis by simp
qed



text \<open>
  Claim C7, as the code has it.  The bytes where a header is expected are a PAX \<open>x\<close>
  record whose data \<open>parse_pax_headers\<close> decodes to records with the key \<open>size\<close>,
  then the header of an entry.  Then \<open>next_entry\<close> yields an entry whatever the value
  is.  For an entry without sparse descriptor the size is the number \<open>std::from_chars\<close>
  reads from the value (its leading digits, when there is one and the number fits 64
  bits), else the size of the ustar header; for an entry with a sparse descriptor the
  size is the real size of the descriptor.
\<close>

theorem pax_size_override:
  assumes "\<not> finished r" and "skip_current_entry_data r = (Inr (), r1)"
    and "unread (stream r1) = xhdr @ pax_data @ xpad @ hdr @ rest"
    and "length (data (stream r1)) < 2 ^ 64"
    and "length xhdr = 512" and "\<not> is_zero_block xhdr" and "parse_header xhdr = Inr xm"
    and "mtype xm = pax_extended_header" and "msize xm = length pax_data"
    and "length xpad = padding_of (length pax_data)"
    and "parse_pax_headers buf pax_data = Inr headers"
    and "map_of headers ''size'' = Some v"
    and "length hdr = 512" and "\<not> is_zero_block hdr" and "parse_header hdr = Inr m"
    and "\<not> is_gnu_extension m" and "\<not> is_pax_header m"
  shows "\<exists>entry r'. next_entry buf r = Some (Inr (Some entry), r')
           \<and> msize entry
               = (case sparse_info entry of
                    Some sp \<Rightarrow> real_size sp
                  | None \<Rightarrow> (case from_chars_unsigned 64 v of
                               Some n \<Rightarrow> n
                             | None \<Rightarrow> msize m))"
proof -
  from assms(5) have "xhdr @ pax_data @ xpad @ hdr @ rest \<noteq> []" by auto
  from start_at_header [OF assms(1,2,3) this assms(4), of buf]
  obtain r0 where r0: "next_entry buf r = next_entry buf r0"
      "header_expected r0 (xhdr @ pax_data @ xpad @ hdr @ rest)"
    by blast
  from pax_round [OF r0(2) assms(5-11)]
  obtain r2 where r2: "next_entry_step buf r0 = (Again, r2)"
      "header_expected r2 (hdr @ rest)" "pending_pax_headers r2 = headers"
    by simp
  from emit_final [OF r2(2) assms(13-17), of buf] r2(3)
  obtain r4 where r4: "next_entry buf r2
        = Some (Inr (Some (fst (emit_entry m r4))), snd (emit_entry m r4))"
      "pending_pax_headers r4 = headers"
    by simp
  from r4(2) assms(12) have "map_of (pending_pax_headers r4) ''size'' = Some v" by simp
  from emit_entry_size [OF this, of m] r0(1) next_entry_again [OF r2(1)] r4(1)
  show ?thesis by simp
qed

theorem pax_size_override_witness:
  "\<exists>entry r'. next_entry pax_buffer (new_reader (pax_archive size_record))
        = Some (Inr (Some entry), r')
      \<and> msize entry = (case sparse_info entry of Some sp \<Rightarrow> real_size sp | None \<Rightarrow> 0)"
proof -
  let ?r = "new_reader (pax_archive size_record)"
  have u: "unread (stream ?r)
      = pax_header @ pax_payload size_record @ replicate 384 NUL @ plain_header @ []"
    by (simp add: unread_def pax_archive_def)
  have b: "length (data (stream ?r)) < 2 ^ 64"
    by (simp add: pax_archive_def plain_length)
  have t: "mtype (default_metadata\<lparr>path := ''PaxHeader'', mtype := pax_extended_header,
                              permissions := 0, msize := 128\<rparr>) = pax_extended_header"
    by simp
  have z: "msize (default_metadata\<lparr>path := ''PaxHeader'', mtype := pax_extended_header,
                              permissions := 0, msize := 128\<rparr>)
             = length (pax_payload size_record)"
    by simp
  have p: "length (replicate 384 NUL) = padding_of (length (pax_payload size_record))"
    by (simp add: padding_of_values)
  have k: "map_of [(''size'', ''abc'')] ''size'' = Some ''abc''" by simp
  have v: "from_chars_unsigned 64 ''abc'' = None"
    by (simp add: from_chars_unsigned_def is_digit_char_def)
  have m: "msize (default_metadata\<lparr>path := ''a'', permissions := 0\<rparr>) = 0"
    by (simp add: default_metadata_def)
  from pax_size_override [OF new_reader_fields(4) new_reader_skip u b fixture_lengths(1)
          fixture_not_zero(1) parse_pax_header t z p parse_size_record k plain_length
          plain_not_zero parse_plain_header plain_metadata_kind(1) plain_metadata_kind(2)]
  show ?thesis unfolding v m by (simp cong: option.case_cong)
qed

text \<open>
  Two archives of an \<open>x\<close> record and the header \<open>plain_header\<close>, whose size field is
  0.  The value \<open>12abc\<close> is no decimal number, yet the entry has size 12.  With the
  value \<open>abc\<close> and the records of GNU sparse format 1.0 the entry has the real size
  2048 of those records, not the size 0 of the header.
\<close>

lemmas emit_eval = emit_entry_def apply_gnu_extensions_def has_longname_def has_longlink_def
  apply_pending_pax_def apply_pax_headers_def has_gnu_sparse_markers_def
  get_gnu_sparse_version_def int_header_def from_chars_int_def from_chars_unsigned_def
  is_digit_char_def decimal_value_def digit_of_def extract_acls_def acl_of_header_def
  apply_pending_sparse_def process_sparse_1_0_def parse_sparse_1_0_data_map_def
  stream_read_def total_data_size_def at_header_def advanced_def new_reader_def
  pax_archive_def default_metadata_def gnu_clear_def is_regular_file_def regular_file_def
  Let_def

theorem pax_size_prefix_and_sparse:
  "from_chars_unsigned 64 ''abc'' = None
   \<and> map_sum id msize (parse_header plain_header) = Inr 0
   \<and> parse_pax_headers pax_buffer (pax_payload size_prefix_record) = Inr [(''size'', ''12abc'')]
   \<and> (\<exists>entry r'. next_entry pax_buffer (new_reader (pax_archive size_prefix_record))
          = Some (Inr (Some entry), r')
        \<and> sparse_info entry = None \<and> msize entry = 12)
   \<and> parse_pax_headers pax_buffer (pax_payload sparse_size_records)
       = Inr [(''size'', ''abc''), (''GNU.sparse.major'', ''1''),
              (''GNU.sparse.minor'', ''0''), (''GNU.sparse.realsize'', ''2048'')]
   \<and> (\<exists>entry r'. next_entry pax_buffer (new_reader (pax_archive sparse_size_records))
          = Some (Inr (Some entry), r')
        \<and> msize entry = 2048)"
proof -
  let ?m = "default_metadata\<lparr>path := ''a'', permissions := 0\<rparr>"
  have a: "from_chars_unsigned 64 ''abc'' = None"
    by (simp add: from_chars_unsigned_def is_digit_char_def)
  have b: "map_sum id msize (parse_header plain_header) = Inr 0"
    by (simp add: parse_plain_header default_metadata_def)
  have c: "sparse_info (fst (emit_entry ?m
              (advanced ((advanced (new_reader (pax_archive size_prefix_record)) 1024)
                 \<lparr>pending_pax_headers := [(''size'', ''12abc'')]\<rparr>) 512))) = None
           \<and> msize (fst (emit_entry ?m
              (advanced ((advanced (new_reader (pax_archive size_prefix_record)) 1024)
                 \<lparr>pending_pax_headers := [(''size'', ''12abc'')]\<rparr>) 512))) = 12"
    by (simp add: emit_eval)
  have d: "msize (fst (emit_entry ?m
              (advanced ((advanced (new_reader (pax_archive sparse_size_records)) 1024)
                 \<lparr>pending_pax_headers := [(''size'', ''abc''), (''GNU.sparse.major'', ''1''),
                     (''GNU.sparse.minor'', ''0''), (''GNU.sparse.realsize'', ''2048'')]\<rparr>)
                 512))) = 2048"
    by (simp add: emit_eval plain_length)
  from a b c d parse_size_prefix_record parse_sparse_size_records
    pax_archive_run [OF _ parse_size_prefix_record]
    pax_archive_run [OF _ parse_sparse_size_records]
  show ?thesis by simp
qed

section \<open>GNU long names and long links\<close>

text \<open>
  Claim C10.  The bytes where a header is expected are a GNU \<open>L\<close> or \<open>K\<close> record
  (header, payload, padding), then the header of an entry.  Then \<open>next_entry\<close> yields
  that entry.  The string taken from the record is the payload without its trailing NUL
  bytes, all of them: the payload is that string followed by NUL bytes only, and the
  string is empty or ends in a byte that is not NUL.  For an \<open>L\<close> record the path of
  the entry is that string, unless it is empty: then the path of the ustar header stays;
  a pending PAX \<open>path\<close> goes before both.  For a \<open>K\<close> record the link target of the
  entry is that string, unless it is empty: then the link target of the ustar header
  stays.  The other of the two names is the one that was pending, if any.
\<close>

theorem gnu_long_record_applied:
  assumes "\<not> finished r" and "skip_current_entry_data r = (Inr (), r1)"
    and "unread (stream r1) = ehdr @ payload @ epad @ hdr @ rest"
    and "length (data (stream r1)) < 2 ^ 64"
    and "length ehdr = 512" and "\<not> is_zero_block ehdr" and "parse_header ehdr = Inr em"
    and "mtype em = gnu_longname \<or> mtype em = gnu_longlink"
    and "msize em = length payload" and "length epad = padding_of (length payload)"
    and "length hdr = 512" and "\<not> is_zero_block hdr" and "parse_header hdr = Inr m"
    and "\<not> is_gnu_extension m" and "\<not> is_pax_header m"
  shows "\<exists>entry r' name.
           next_entry buf r = Some (Inr (Some entry), r')
           \<and> name = strip_trailing_nuls payload
           \<and> (\<exists>k. payload = name @ replicate k NUL)
           \<and> (name = [] \<or> last name \<noteq> NUL)
           \<and> path entry
               = (case map_of (pending_pax_headers r) ''path'' of
                    Some v \<Rightarrow> v
                  | None \<Rightarrow>
                      if mtype em = gnu_longname
                      then (if name = [] then path m else name)
                      else (if longname (pending_gnu_extensions r) = [] then path m
                            else longname (pending_gnu_extensions r)))
           \<and> link_target entry
               = (if mtype em = gnu_longlink
                  then (if name = [] then link_target m else Some name)
                  else (if longlink (pending_gnu_extensions r) = [] then link_target m
                        else Some (longlink (pending_gnu_extensions r))))"
proof -
  let ?name = "strip_trailing_nuls payload"
  let ?ext = "if mtype em = gnu_longname
              then (pending_gnu_extensions r)\<lparr>longname := ?name\<rparr>
              else (pending_gnu_extensions r)\<lparr>longlink := ?name\<rparr>"
  have ne: "gnu_longname \<noteq> gnu_longlink"
    by (simp add: gnu_longname_def gnu_longlink_def)
  from assms(5) have "ehdr @ payload @ epad @ hdr @ rest \<noteq> []" by auto
  from start_at_header [OF assms(1,2,3) this assms(4), of buf]
  obtain r0 where r0: "next_entry buf r = next_entry buf r0"
      "header_expected r0 (ehdr @ payload @ epad @ hdr @ rest)"
      "pending_pax_headers r0 = pending_pax_headers r"
      "pending_gnu_extensions r0 = pending_gnu_extensions r"
    by blast
  from gnu_name_round(1) [OF r0(2) assms(5-10), of buf]
    gnu_name_round(2) [OF r0(2) assms(5-10)] r0(3,4)
  obtain r2 where r2: "next_entry_step buf r0 = (Again, r2)"
      "header_expected r2 (hdr @ rest)" "pending_pax_headers r2 = pending_pax_headers r"
      "pending_gnu_extensions r2 = ?ext"
    by simp
  from emit_final [OF r2(2) assms(11-15), of buf] r2(3,4)
  obtain r4 where r4: "next_entry buf r2
        = Some (Inr (Some (fst (emit_entry m r4))), snd (emit_entry m r4))"
      "pending_pax_headers r4 = pending_pax_headers r" "pending_gnu_extensions r4 = ?ext"
    by simp
  have nx: "next_entry buf r = Some (Inr (Some (fst (emit_entry m r4))), snd (emit_entry m r4))"
    using r0(1) next_entry_again [OF r2(1)] r4(1) by simp
  have p: "path (fst (emit_entry m r4))
      = (case map_of (pending_pax_headers r) ''path'' of
           Some v \<Rightarrow> v
         | None \<Rightarrow>
             if mtype em = gnu_longname
             then (if ?name = [] then path m else ?name)
             else (if longname (pending_gnu_extensions r) = [] then path m
                   else longname (pending_gnu_extensions r)))"
    by (simp add: emit_entry_names r4(2,3) split: option.splits)
  have l: "link_target (fst (emit_entry m r4))
      = (if mtype em = gnu_longlink
         then (if ?name = [] then link_target m else Some ?name)
         else (if longlink (pending_gnu_extensions r) = [] then link_target m
               else Some (longlink (pending_gnu_extensions r))))"
    using assms(8) ne by (auto simp: emit_entry_names r4(3))
  from nx p l strip_trailing_nuls_decompose [of payload] strip_trailing_nuls_last [of payload]
  show ?thesis by blast
qed

theorem gnu_long_record_applied_witness:
  "longname_payload = ''abc'' @ replicate 3 NUL
   \<and> (\<exists>entry r'. next_entry pax_buffer
            (new_reader (name_record_archive longname_header longname_payload))
          = Some (Inr (Some entry), r')
        \<and> path entry = ''abc'' \<and> link_target entry = None)
   \<and> (\<exists>entry r'. next_entry pax_buffer
            (new_reader (name_record_archive longlink_header longname_payload))
          = Some (Inr (Some entry), r')
        \<and> path entry = ''a'' \<and> link_target entry = Some ''abc'')
   \<and> (\<exists>entry r'. next_entry pax_buffer
            (new_reader (name_record_archive longname_header (replicate 6 NUL)))
          = Some (Inr (Some entry), r')
        \<and> path entry = ''a'' \<and> link_target entry = None)"
proof -
  let ?lm = "default_metadata\<lparr>path := ''././@LongLink'', mtype := gnu_longname,
                              permissions := 0, msize := 6\<rparr>"
  let ?km = "default_metadata\<lparr>path := ''././@LongLink'', mtype := gnu_longlink,
                              permissions := 0, msize := 6\<rparr>"
  have u: "unread (stream (new_reader (name_record_archive h p)))
      = h @ p @ replicate 506 NUL @ plain_header @ []" for h p
    by (simp add: unread_def name_record_archive_def)
  have b: "length (data (stream (new_reader (name_record_archive h p)))) < 2 ^ 64"
    if "length h = 512" and "length p = 6" for h p
    using that by (simp add: name_record_archive_def plain_length)
  have t: "mtype ?lm = gnu_longname \<or> mtype ?lm = gnu_longlink"
    "mtype ?km = gnu_longname \<or> mtype ?km = gnu_longlink"
    by simp_all
  have z: "msize ?lm = length longname_payload" "msize ?km = length longname_payload"
    "msize ?lm = length (replicate 6 NUL)"
    by simp_all
  have p: "length (replicate 506 NUL) = padding_of (length longname_payload)"
    "length (replicate 506 NUL) = padding_of (length (replicate 6 NUL))"
    by (simp_all add: padding_of_values)
  have "strip_trailing_nuls ''abc'' = ''abc''"
    by (simp add: strip_trailing_nuls_def)
  then have n: "strip_trailing_nuls longname_payload = ''abc''"
    unfolding longname_payload_def by (simp only: strip_trailing_nuls_append)
  have "strip_trailing_nuls [] = []"
    by (simp add: strip_trailing_nuls_def)
  then have e: "strip_trailing_nuls (replicate 6 NUL) = []"
    using strip_trailing_nuls_append [of "[]" 6] by simp
  have m: "link_target (default_metadata\<lparr>path := ''a'', permissions := 0\<rparr>) = None"
    "path (default_metadata\<lparr>path := ''a'', permissions := 0\<rparr>) = ''a''"
    by (simp_all add: default_metadata_def)
  have ne: "gnu_longname \<noteq> gnu_longlink"
    by (simp add: gnu_longname_def gnu_longlink_def)
  from gnu_long_record_applied [OF new_reader_fields(4) new_reader_skip u
          b [OF fixture_lengths(2) fixture_lengths(3)] fixture_lengths(2)
          fixture_not_zero(2) parse_longname_header t(1) z(1) p(1) plain_length
          plain_not_zero parse_plain_header plain_metadata_kind(1) plain_metadata_kind(2),
          of pax_buffer]
  have l: "\<exists>entry r'. next_entry pax_buffer
              (new_reader (name_record_archive longname_header longname_payload))
            = Some (Inr (Some entry), r')
          \<and> path entry = ''abc'' \<and> link_target entry = None"
    by (auto simp: n m ne gnu_clear_def)
  from gnu_long_record_applied [OF new_reader_fields(4) new_reader_skip u
          b [OF fixture_lengths(4) fixture_lengths(3)] fixture_lengths(4)
          fixture_not_zero(3) parse_longlink_header t(2) z(2) p(1) plain_length
          plain_not_zero parse_plain_header plain_metadata_kind(1) plain_metadata_kind(2),
          of pax_buffer]
  have k: "\<exists>entry r'. next_entry pax_buffer
              (new_reader (name_record_archive longlink_header longname_payload))
            = Some (Inr (Some entry), r')
          \<and> path entry = ''a'' \<and> link_target entry = Some ''abc''"
    by (auto simp: n m ne ne [symmetric] gnu_clear_def)
  have b6: "length (data (stream (new_reader
              (name_record_archive longname_header (replicate 6 NUL))))) < 2 ^ 64"
    by (rule b) simp_all
  from gnu_long_record_applied [OF new_reader_fields(4) new_reader_skip u b6
          fixture_lengths(2)
          fixture_not_zero(2) parse_longname_header t(1) z(3) p(2) plain_length
          plain_not_zero parse_plain_header plain_metadata_kind(1) plain_metadata_kind(2),
          of pax_buffer]
  have z: "\<exists>entry r'. next_entry pax_buffer
              (new_reader (name_record_archive longname_header (replicate 6 NUL)))
            = Some (Inr (Some entry), r')
          \<and> path entry = ''a'' \<and> link_target entry = None"
    by (auto simp: e m ne gnu_clear_def)
  from l k z show ?thesis by (simp add: longname_payload_def)
qed

section \<open>A sparse entry, end to end\<close>

lemma parse_sparse_octal_loop_nuls [simp]:
  "parse_sparse_octal_loop (replicate n NUL) v l = (if l > 0 then Some v else None)"
  by (induction n) (simp_all add: is_octal_char_def)

lemma sparse_strings:
  "extract_string (h_magic sparse_header) = ''ustar ''"
  "extract_string (h_version sparse_header) = '' ''"
  "extract_string (h_name sparse_header) = ''s''"
  "extract_string (h_prefix sparse_header) = []"
  "extract_string (h_uname sparse_header) = []"
  "extract_string (h_gname sparse_header) = []"
  "h_typeflag sparse_header = CHR ''S''"
  by (simp_all add: sparse_header_def header_field_defs extract_string_def [of "_ # _"])

lemma sparse_numbers:
  "parse_octal (h_checksum sparse_header) = Inr 1383"
  "parse_octal (h_mode sparse_header) = Inr 0"
  "parse_octal (h_uid sparse_header) = Inr 0"
  "parse_octal (h_gid sparse_header) = Inr 0"
  "parse_octal (h_size sparse_header) = Inr 4"
  "parse_octal (h_mtime sparse_header) = Inr 0"
  by (simp_all add: sparse_header_def header_field_defs parse_octal_def [of "_ # _"]
      is_octal_char_def digit_of_def)

lemma sparse_overlay:
  "parse_old_sparse_header sparse_header = Inr sparse_descriptor"
  by (simp add: parse_old_sparse_header_def sparse_header_def header_field_defs
      parse_sparse_octal_def [of "_ # _"] is_octal_char_def octal_value_def digit_of_def
      u64_def takeWhile_replicate sparse_descriptor_def)

lemma sparse_checksum: "calculate_checksum sparse_header = 1383"
  by (simp add: calculate_checksum_sum sparse_header_def sum_list_replicate)

lemma parse_sparse_header:
  "parse_header sparse_header
     = Inr (default_metadata\<lparr>path := ''s'', permissions := 0, msize := 4,
                              sparse_info := Some sparse_descriptor\<rparr>)"
  by (simp add: parse_header_def sparse_strings sparse_numbers sparse_overlay sparse_checksum
      Let_def is_gnu_tar_magic_def regular_file_def gnu_sparse_def known_entry_types_def
      detect_sparse_def parse_device_numbers_def handle_links_def set_metadata_fields_def
      header_path_def sparse_descriptor_def
      default_metadata_def character_device_def block_device_def symbolic_link_def hard_link_def)

lemma sparse_header_length: "length sparse_header = 512"
  by (simp add: sparse_header_def)

lemma sparse_header_not_zero: "\<not> is_zero_block sparse_header"
  by (simp add: is_zero_block_def sparse_header_def)

lemma sparse_metadata_kind:
  "\<not> is_gnu_extension (default_metadata\<lparr>path := ''s'', permissions := 0, msize := 4,
                              sparse_info := Some sparse_descriptor\<rparr>)"
  "\<not> is_pax_header (default_metadata\<lparr>path := ''s'', permissions := 0, msize := 4,
                              sparse_info := Some sparse_descriptor\<rparr>)"
  by (simp_all add: is_gnu_extension_def is_pax_header_def default_metadata_def
      is_gnu_longname_def is_gnu_longlink_def regular_file_def gnu_longname_def
      gnu_longlink_def gnu_sparse_def gnu_volhdr_def gnu_multivol_def
      pax_extended_header_def pax_global_header_def)

lemma sparse_entry_yielded:
  "next_entry buf (new_reader sparse_archive) = Some (Inr (Some sparse_file), after_sparse_header)"
proof -
  let ?r = "new_reader sparse_archive"
  have k: "skip_current_entry_data ?r = (Inr (), ?r)"
    by (rule skip_nothing) (simp_all add: new_reader_def)
  have rb: "read_block (stream ?r) = (Inr sparse_header, sparse_archive\<lparr>position := 512\<rparr>)"
    by (simp add: read_block_eq unread_def sparse_archive_def sparse_header_length)
  have e: "emit_entry (default_metadata\<lparr>path := ''s'', permissions := 0, msize := 4,
                              sparse_info := Some sparse_descriptor\<rparr>)
             (at_header ?r (sparse_archive\<lparr>position := 512\<rparr>))
           = (sparse_file, after_sparse_header)"
    by (simp add: emit_entry_def apply_gnu_extensions_def has_longname_def has_longlink_def
        apply_pending_pax_def apply_pending_sparse_def process_sparse_1_0_def at_header_def
        new_reader_def gnu_clear_def total_data_size_def sparse_descriptor_def u64_def
        sparse_file_def after_sparse_header_def default_metadata_def Let_def)
  have "next_entry_step buf ?r = (Done (Inr (Some sparse_file)), after_sparse_header)"
    using step_emits [OF _ k rb sparse_header_not_zero parse_sparse_header sparse_metadata_kind]
    by (simp add: e)
  then show ?thesis
    by (subst next_entry.simps) simp
qed

lemmas read_eval = read_data_def sparse_reader_def sparse_read_loop.simps base_reader_def
  find_segment_def sparse_data_offset_def next_segment_start_def stream_read_def u64_def
  is_regular_file_def regular_file_def sparse_file_def sparse_descriptor_def
  after_sparse_header_def sparse_archive_def new_reader_def default_metadata_def Let_def
  sparse_header_length

text \<open>
  Claim C3 on the archive above.  The entry is yielded with its sparse descriptor.  A
  read of the first segment and the hole after it returns the stored bytes and zeros; a
  read of the whole logical range \<open>[0, 6)\<close> reaches the second segment, asks the base
  reader for physical offset 2, and gets its unsupported-feature error instead of the
  bytes \<open>cd\<close>.
\<close>

theorem sparse_second_segment_read_fails:
  "next_entry pax_buffer (new_reader sparse_archive) = Some (Inr (Some sparse_file), after_sparse_header)
   \<and> sparse_info sparse_file = Some sparse_descriptor
   \<and> map_option fst (read_data sparse_file 0 6 after_sparse_header)
       = Some (Inl (unsupported_feature, ''Streaming mode doesn't support offset reads''))
   \<and> map_option fst (read_data sparse_file 0 4 after_sparse_header)
       = Some (Inr (''ab'' @ replicate 2 NUL))"
proof -
  have a: "map_option fst (read_data sparse_file 0 6 after_sparse_header)
       = Some (Inl (unsupported_feature, ''Streaming mode doesn't support offset reads''))"
    by (simp add: read_eval)
  have b: "map_option fst (read_data sparse_file 0 4 after_sparse_header)
       = Some (Inr (''ab'' @ replicate 2 NUL))"
    by (simp add: read_eval)
  from a b sparse_entry_yielded show ?thesis
    by (simp add: sparse_file_def)
qed

text \<open>
  Claim C2 on the archive above.  After the header the stream is at 512; the stored
  payload is 4 bytes, so the next record starts at 512 + 4 + 508 = 1024.  The skip before
  the next header takes the 4 payload bytes and then the padding of the logical size 6,
  which is 506, and leaves the stream at 1022.
\<close>

theorem sparse_padding_from_real_size:
  "next_entry pax_buffer (new_reader sparse_archive) = Some (Inr (Some sparse_file), after_sparse_header)
   \<and> position (stream after_sparse_header) = 512
   \<and> total_data_size sparse_descriptor = 4
   \<and> padding_of 4 = 508
   \<and> fst (skip_current_entry_data after_sparse_header) = Inr ()
   \<and> position (stream (snd (skip_current_entry_data after_sparse_header))) = 1022"
  using sparse_entry_yielded
  by (simp add: skip_current_entry_data_def skip_padding_def padding_of_def BLOCK_SIZE_def
      stream_skip_def u64_def total_data_size_def sparse_file_def sparse_descriptor_def
      after_sparse_header_def sparse_archive_def new_reader_def default_metadata_def Let_def
      sparse_header_length)

section \<open>The sparse 1.0 map in the data block\<close>

lemma find_double_newline_none:
  "CHR 0x0A \<notin> set cs \<Longrightarrow> find_double_newline (c # cs) = None"
  by (induction cs arbitrary: c) auto

lemmas sparse_map_eval = parse_sparse_1_0_data_map_def stream_read_def find_nul_def
  find_double_newline_none takeWhile_replicate sparse_numbers_loop.simps is_map_space_def
  is_digit_char_def from_chars_unsigned_def decimal_value_def digit_of_def u64_def Let_def

text \<open>
  Claim C5 on the two data blocks above.  The map with two pairs is recovered; the map
  with one pair has three numbers only, fewer than the four the decoder asks for, and
  gives no segment at all.
\<close>

theorem sparse_1_0_map_of_one_pair_lost:
  "fst (parse_sparse_1_0_data_map sparse_map_count_one 2048)
     = Inr \<lparr>real_size = 2048, segments = []\<rparr>
   \<and> fst (parse_sparse_1_0_data_map sparse_map_count_two 2048)
     = Inr \<lparr>real_size = 2048,
            segments = [\<lparr>offset = 0, numbytes = 512\<rparr>, \<lparr>offset = 1536, numbytes = 512\<rparr>]\<rparr>"
proof -
  have a: "fst (parse_sparse_1_0_data_map sparse_map_count_one 2048)
     = Inr \<lparr>real_size = 2048, segments = []\<rparr>"
    by (simp add: sparse_map_eval sparse_map_count_one_def)
  have b: "fst (parse_sparse_1_0_data_map sparse_map_count_two 2048)
     = Inr \<lparr>real_size = 2048,
            segments = [\<lparr>offset = 0, numbytes = 512\<rparr>, \<lparr>offset = 1536, numbytes = 512\<rparr>]\<rparr>"
    by (simp add: sparse_map_eval sparse_map_count_two_def)
  from a b show ?thesis by simp
qed


section \<open>\<open>next_entry\<close> returns\<close>

text \<open>
  The recursion of \<open>archive_reader::next_entry\<close> (after a GNU or PAX extension record it
  calls itself) ends on every well-formed stream: each round that asks for another one has
  read a whole header record, so the position has advanced by at least 512 bytes and stays
  within the mapping.
\<close>

lemma stream_le_refl: "stream_ok s \<Longrightarrow> stream_le s s"
  by (simp add: stream_le_def)

lemma stream_le_trans: "stream_le a b \<Longrightarrow> stream_le b c \<Longrightarrow> stream_le a c"
  by (auto simp: stream_le_def)

lemma stream_le_ok: "stream_le a b \<Longrightarrow> stream_ok b"
  by (simp add: stream_le_def)

lemma stream_read_le:
  "stream_ok s \<Longrightarrow> stream_read n s = (res, s') \<Longrightarrow> stream_le s s'"
  by (auto simp: stream_read_def stream_le_def stream_ok_def Let_def min_def)

lemma stream_skip_le:
  "stream_ok s \<Longrightarrow> n < 2 ^ 36 \<Longrightarrow> stream_skip n s = (res, s') \<Longrightarrow> stream_le s s'"
  by (auto simp: stream_skip_def stream_le_def stream_ok_def u64_def split: if_splits)

lemma padding_of_less: "padding_of n < 2 ^ 36"
proof -
  have "padding_of n < 512" by (simp add: padding_of_def BLOCK_SIZE_def)
  then show ?thesis by simp
qed

lemma skip_padding_le:
  "stream_ok s \<Longrightarrow> skip_padding n s = (res, s') \<Longrightarrow> stream_le s s'"
  using stream_skip_le [OF _ padding_of_less]
  by (auto simp: skip_padding_def stream_le_refl split: if_splits)

lemma read_extension_loop_le:
  "stream_ok s \<Longrightarrow> read_extension_loop remaining acc s = (res, s') \<Longrightarrow> stream_le s s'"
proof (induction remaining acc s rule: read_extension_loop.induct)
  case (1 remaining result s)
  show ?case
  proof (cases "remaining > 0")
    case False
    with "1.prems" show ?thesis
      by (simp add: read_extension_loop.simps [of remaining] stream_le_refl)
  next
    case True
    obtain buffer s1 where rd: "stream_read (min remaining BLOCK_SIZE) s = (Inr buffer, s1)"
      by (simp add: stream_read_def Let_def)
    from stream_read_le [OF "1.prems"(1) rd] have le1: "stream_le s s1" .
    show ?thesis
    proof (cases "length buffer = 0")
      case True
      with \<open>remaining > 0\<close> rd "1.prems"(2) le1 show ?thesis
        by (simp add: read_extension_loop.simps [of remaining])
    next
      case False
      with \<open>remaining > 0\<close> rd "1.prems"(2)
      have "read_extension_loop (remaining - length buffer) (result @ buffer) s1 = (res, s')"
        by (simp add: read_extension_loop.simps [of remaining])
      from "1.IH" [OF \<open>remaining > 0\<close> rd [symmetric] refl False stream_le_ok [OF le1] this] le1
      show ?thesis by (rule stream_le_trans [rotated])
    qed
  qed
qed

lemma read_gnu_extension_data_le:
  assumes "stream_ok s" and "read_gnu_extension_data s n = (res, s')"
  shows "stream_le s s'"
proof (cases "n = 0")
  case True
  with assms show ?thesis by (simp add: read_gnu_extension_data_def stream_le_refl)
next
  case False
  obtain r1 s1 where l: "read_extension_loop n [] s = (r1, s1)" by (cases "read_extension_loop n [] s")
  from read_extension_loop_le [OF assms(1) l] have le1: "stream_le s s1" .
  show ?thesis
  proof (cases r1)
    case (Inl e)
    with False l assms(2) le1 show ?thesis by (simp add: read_gnu_extension_data_def)
  next
    case (Inr str)
    show ?thesis
    proof (cases "padding_of n > 0")
      case True
      obtain r2 s2 where k: "stream_skip (padding_of n) s1 = (r2, s2)"
        by (cases "stream_skip (padding_of n) s1")
      from stream_skip_le [OF stream_le_ok [OF le1] padding_of_less k] have "stream_le s1 s2" .
      with le1 have "stream_le s s2" by (rule stream_le_trans)
      moreover from False l Inr True k assms(2) have "s' = s2"
        by (cases r2) (simp_all add: read_gnu_extension_data_def)
      ultimately show ?thesis by simp
    next
      case f: False
      with False l Inr assms(2) le1 show ?thesis by (simp add: read_gnu_extension_data_def)
    qed
  qed
qed

lemma read_sparse_map_continuation_loop_le:
  "stream_ok s \<Longrightarrow> read_sparse_map_continuation_loop acc s = (res, s') \<Longrightarrow> stream_le s s'"
proof (induction acc s rule: read_sparse_map_continuation_loop.induct)
  case (1 result s)
  obtain block s1 where rd: "stream_read 512 s = (Inr block, s1)"
    by (simp add: stream_read_def Let_def)
  from stream_read_le [OF "1.prems"(1) rd] have le1: "stream_le s s1" .
  let ?result' = "result @ old_sparse_entries
        (map (\<lambda>i. (field (i * 24) 12 block, field (i * 24 + 12) 12 block)) [0..<21])"
  show ?case
  proof (cases "length block \<noteq> 512 \<or> block ! 504 \<noteq> CHR ''1''")
    case True
    with rd "1.prems"(2) le1 show ?thesis
      by (auto simp: read_sparse_map_continuation_loop.simps [of result s] Let_def
          split: if_splits)
  next
    case False
    with rd "1.prems"(2)
    have "read_sparse_map_continuation_loop ?result' s1 = (res, s')"
      by (simp add: read_sparse_map_continuation_loop.simps [of result s] Let_def)
    from "1.IH" [OF rd [symmetric] refl _ refl _ stream_le_ok [OF le1] this] False le1
    show ?thesis by (auto intro: stream_le_trans)
  qed
qed

lemma parse_octal_loop_bound:
  "parse_octal_loop cs r fd = Inr v \<Longrightarrow> v < (r + 1) * 8 ^ length cs"
proof (induction cs r fd arbitrary: v rule: parse_octal_loop.induct)
  case (1 result found_digit)
  then show ?case by (auto split: if_splits)
next
  case (2 c cs result found_digit)
  have grow: "(result + 1) * 8 ^ length cs \<le> (result + 1) * 8 ^ length (c # cs)" by simp
  have pos: "result < (result + 1) * 8 ^ length (c # cs)"
  proof -
    have "result < (result + 1) * 1" by simp
    also have "\<dots> \<le> (result + 1) * 8 ^ length (c # cs)"
      by (rule mult_le_mono2) simp
    finally show ?thesis .
  qed
  show ?case
  proof (cases "c = NUL \<or> c = CHR '' ''")
    case True
    show ?thesis
    proof (cases found_digit)
      case True
      with \<open>c = NUL \<or> c = CHR '' ''\<close> "2.prems" pos show ?thesis by auto
    next
      case False
      with True "2.prems" have "parse_octal_loop cs result found_digit = Inr v" by auto
      from "2.IH"(1) [OF True False this] grow show ?thesis by linarith
    qed
  next
    case False
    with "2.prems" have oct: "is_octal_char c" and small: "\<not> result > (2 ^ 64 - 1) div 8"
      and rec: "parse_octal_loop cs (result * 8 + digit_of c) True = Inr v"
      by (auto split: if_splits)
    from oct have d: "digit_of c \<le> 7"
      by (auto simp: is_octal_char_def digit_of_def)
    from "2.IH"(2) [OF False _ small rec] oct
    have "v < (result * 8 + digit_of c + 1) * 8 ^ length cs" by simp
    also have "\<dots> \<le> ((result + 1) * 8) * 8 ^ length cs"
      using d by (intro mult_le_mono1) simp
    finally show ?thesis by (simp add: algebra_simps)
  qed
qed

lemma parse_octal_bound:
  "parse_octal cs = Inr v \<Longrightarrow> length cs \<le> 12 \<Longrightarrow> v < 2 ^ 36"
proof -
  assume a: "parse_octal cs = Inr v" and l: "length cs \<le> 12"
  from parse_octal_loop_bound [of cs 0 False v] a have "v < 8 ^ length cs"
    by (simp add: parse_octal_def)
  also have "(8::nat) ^ length cs \<le> 8 ^ 12" using l by (intro power_increasing) simp_all
  finally show ?thesis by simp
qed

lemma metadata_stage_size [simp]:
  "msize (handle_links block m) = msize m"
  "msize (parse_device_numbers block m) = msize m"
  "msize (set_metadata_fields block mode uid gid sz mtime m) = sz"
  by (simp_all add: handle_links_def parse_device_numbers_def set_metadata_fields_def Let_def)

lemma parse_header_size:
  assumes "parse_header block = Inr m"
  shows "msize m < 2 ^ 36"
proof -
  from assms obtain v where "parse_octal (h_size block) = Inr v" and "msize m = v"
    by (cases "parse_octal (h_size block)")
       (auto simp: parse_header_def Let_def split: sum.splits if_splits)
  moreover have "length (h_size block) \<le> 12" by (simp add: h_size_def field_def)
  ultimately show ?thesis using parse_octal_bound by simp
qed

lemma stream_skip_keeps:
  "stream_ok s \<Longrightarrow> stream_skip n s = (res, s') \<Longrightarrow> stream_ok s' \<and> data s' = data s"
  by (auto simp: stream_skip_def stream_ok_def split: if_splits)

lemma skip_padding_keeps:
  "stream_ok s \<Longrightarrow> skip_padding n s = (res, s') \<Longrightarrow> stream_ok s' \<and> data s' = data s"
  using stream_skip_keeps by (auto simp: skip_padding_def split: if_splits)

lemma skip_current_entry_data_keeps:
  assumes "stream_ok (stream r)" and "skip_current_entry_data r = (res, r1)"
  shows "stream_ok (stream r1) \<and> data (stream r1) = data (stream r)"
proof -
  obtain res1 s1 where a:
    "(if current_entry_data_remaining r > 0
      then stream_skip (current_entry_data_remaining r) (stream r)
      else (Inr (), stream r)) = (res1, s1)"
    by (cases "(if current_entry_data_remaining r > 0
      then stream_skip (current_entry_data_remaining r) (stream r)
      else (Inr (), stream r))")
  from a assms(1) stream_skip_keeps have k1: "stream_ok s1 \<and> data s1 = data (stream r)"
    by (auto split: if_splits)
  let ?t = "case current_entry r of Some e \<Rightarrow> msize e | None \<Rightarrow> 0"
  obtain res2 s2 where b:
    "(if ?t > 0 then skip_padding ?t s1 else (Inr (), s1)) = (res2, s2)"
    by (cases "(if ?t > 0 then skip_padding ?t s1 else (Inr (), s1))")
  from b k1 skip_padding_keeps have k2: "stream_ok s2 \<and> data s2 = data (stream r)"
    by (auto split: if_splits)
  from assms(2) a b k1 k2 show ?thesis
    by (cases res1; cases res2) (auto simp: skip_current_entry_data_def Let_def)
qed

lemma skip_idle:
  "current_entry r = None \<Longrightarrow> current_entry_data_remaining r = 0 \<Longrightarrow>
   skip_current_entry_data r = (res, r1) \<Longrightarrow> stream r1 = stream r"
  by (auto simp: skip_current_entry_data_def)

lemma read_block_le:
  "stream_ok s \<Longrightarrow> read_block s = (Inr block, s') \<Longrightarrow>
   stream_le s s' \<and> position s + 512 \<le> position s'"
  by (auto simp: read_block_eq stream_le_def stream_ok_def unread_def split: if_splits)

lemma process_sparse_file_le:
  "stream_ok (stream r) \<Longrightarrow> process_sparse_file meta r = (res, r') \<Longrightarrow>
   stream_le (stream r) (stream r')"
  using read_sparse_map_continuation_loop_le [of "stream r" "[]"]
  by (auto simp: process_sparse_file_def read_sparse_map_continuation_def Let_def stream_le_refl
      split: option.splits prod.splits sum.splits)

lemma skip_both_le:
  assumes "stream_ok s" and "n < 2 ^ 36" and "stream_skip n s = (res1, s1)"
    and "skip_padding n s1 = (res2, s2)"
  shows "stream_le s s1" and "stream_le s s2"
proof -
  from stream_skip_le [OF assms(1,2,3)] show a: "stream_le s s1" .
  from skip_padding_le [OF stream_le_ok [OF a] assms(4)] a show "stream_le s s2"
    by (rule stream_le_trans [rotated])
qed

lemma process_gnu_extension_le:
  assumes "stream_ok (stream r)" and "msize meta < 2 ^ 36"
    and "process_gnu_extension meta r = (res, r')"
  shows "stream_le (stream r) (stream r')"
  using assms read_gnu_extension_data_le [OF assms(1), of "msize meta"]
    process_sparse_file_le [OF assms(1), of meta]
    skip_both_le [OF assms(1,2)]
  by (auto simp: process_gnu_extension_def stream_le_refl
      split: if_splits prod.splits sum.splits)

lemma process_pax_header_le:
  assumes "stream_ok (stream r)" and "msize meta < 2 ^ 36"
    and "process_pax_header buf meta r = (res, r')"
  shows "stream_le (stream r) (stream r')"
proof -
  have rd: "\<And>res1 s1 res2 s2. stream_read (msize meta) (stream r) = (res1, s1) \<Longrightarrow>
      skip_padding (msize meta) s1 = (res2, s2) \<Longrightarrow>
      stream_le (stream r) s1 \<and> stream_le (stream r) s2"
    using stream_read_le [OF assms(1)] skip_padding_le stream_le_ok stream_le_trans by blast
  have rd1: "\<And>res1 s1. stream_read (msize meta) (stream r) = (res1, s1) \<Longrightarrow>
      stream_le (stream r) s1"
    by (rule stream_read_le [OF assms(1)])
  have rd2: "\<And>res1 s1 res2 s2. stream_read (msize meta) (stream r) = (res1, s1) \<Longrightarrow>
      skip_padding (msize meta) s1 = (res2, s2) \<Longrightarrow> stream_le (stream r) s2"
    using rd by blast
  from assms(3) rd1 rd2 skip_both_le [OF assms(1,2)] assms(1) show ?thesis
    by (auto simp: process_pax_header_def stream_le_refl
        split: if_splits prod.splits sum.splits)
qed

lemma process_gnu_extension_idle:
  "process_gnu_extension meta r = (res, r') \<Longrightarrow> idle r \<Longrightarrow> idle r'"
  by (auto simp: process_gnu_extension_def process_sparse_file_def idle_def Let_def
      split: if_splits prod.splits sum.splits option.splits)

lemma process_pax_header_idle:
  "process_pax_header buf meta r = (res, r') \<Longrightarrow> idle r \<Longrightarrow> idle r'"
  by (auto simp: process_pax_header_def idle_def Let_def
      split: if_splits prod.splits sum.splits option.splits)

lemma next_entry_step_again:
  assumes "next_entry_step buf r = (Again, r')"
  obtains r1 block s3 m r4 where
    "skip_current_entry_data r = (Inr (), r1)"
    "read_block (stream r1) = (Inr block, s3)"
    "parse_header block = Inr m"
    "r4 = r1\<lparr>current_entry := None, current_entry_data_remaining := 0,
             current_entry_data_consumed := 0, stream := s3\<rparr>"
    "process_gnu_extension m r4 = (Inr True, r') \<or> process_pax_header buf m r4 = (Inr True, r')
     \<or> (\<exists>r5. process_gnu_extension m r4 = (Inr False, r5) \<and>
              process_pax_header buf m r5 = (Inr True, r'))"
  using assms
  by (auto simp: next_entry_step_def Let_def emit_entry_def
      split: if_splits prod.splits sum.splits bool.splits)

lemma next_entry_step_progress:
  assumes ok: "stream_ok (stream r)" and step: "next_entry_step buf r = (Again, r')"
  shows "stream_ok (stream r') \<and> data (stream r') = data (stream r) \<and> idle r' \<and>
         (idle r \<longrightarrow> position (stream r) + 512 \<le> position (stream r'))"
proof -
  from step obtain r1 block s3 m r4 where
    sk: "skip_current_entry_data r = (Inr (), r1)" and
    rb: "read_block (stream r1) = (Inr block, s3)" and
    ph: "parse_header block = Inr m" and
    r4: "r4 = r1\<lparr>current_entry := None, current_entry_data_remaining := 0,
             current_entry_data_consumed := 0, stream := s3\<rparr>" and
    proc: "process_gnu_extension m r4 = (Inr True, r') \<or> process_pax_header buf m r4 = (Inr True, r')
     \<or> (\<exists>r5. process_gnu_extension m r4 = (Inr False, r5) \<and>
              process_pax_header buf m r5 = (Inr True, r'))"
    by (rule next_entry_step_again)
  from skip_current_entry_data_keeps [OF ok sk]
  have ok1: "stream_ok (stream r1)" and d1: "data (stream r1) = data (stream r)" by simp_all
  from read_block_le [OF ok1 rb]
  have le3: "stream_le (stream r1) s3" and adv: "position (stream r1) + 512 \<le> position s3"
    by simp_all
  from parse_header_size [OF ph] have sz: "msize m < 2 ^ 36" .
  from r4 have i4: "idle r4" and s4: "stream r4 = s3" by (simp_all add: idle_def)
  from le3 s4 have ok4: "stream_ok (stream r4)" by (simp add: stream_le_def)
  have fin: "stream_le s3 (stream r') \<and> idle r'"
    using proc
  proof (elim disjE exE conjE)
    assume a: "process_gnu_extension m r4 = (Inr True, r')"
    from process_gnu_extension_le [OF ok4 sz a] process_gnu_extension_idle [OF a i4] s4
    show ?thesis by simp
  next
    assume a: "process_pax_header buf m r4 = (Inr True, r')"
    from process_pax_header_le [OF ok4 sz a] process_pax_header_idle [OF a i4] s4
    show ?thesis by simp
  next
    fix r5
    assume a: "process_gnu_extension m r4 = (Inr False, r5)"
      and b: "process_pax_header buf m r5 = (Inr True, r')"
    from process_gnu_extension_le [OF ok4 sz a] have le5: "stream_le (stream r4) (stream r5)" .
    from process_gnu_extension_idle [OF a i4] have i5: "idle r5" .
    from process_pax_header_le [OF stream_le_ok [OF le5] sz b]
    have "stream_le (stream r5) (stream r')" .
    with le5 have "stream_le (stream r4) (stream r')" by (rule stream_le_trans)
    with process_pax_header_idle [OF b i5] s4 show ?thesis by simp
  qed
  have "idle r \<longrightarrow> stream r1 = stream r"
    using skip_idle [OF _ _ sk] by (simp add: idle_def)
  with fin le3 adv d1 show ?thesis
    by (auto simp: stream_le_def)
qed

lemma next_entry_idle_returns:
  "stream_ok (stream r) \<Longrightarrow> idle r \<Longrightarrow> \<exists>y. next_entry buf r = Some y"
proof (induction "length (data (stream r)) - position (stream r)" arbitrary: r rule: less_induct)
  case less
  obtain st r' where step: "next_entry_step buf r = (st, r')" by (cases "next_entry_step buf r")
  show ?case
  proof (cases st)
    case (Done res)
    with step show ?thesis by (simp add: next_entry.simps [of _ r])
  next
    case Again
    with step have a: "next_entry_step buf r = (Again, r')" by simp
    from next_entry_step_progress [OF less.prems(1) a] less.prems(2)
    have ok': "stream_ok (stream r')" and d: "data (stream r') = data (stream r)"
      and i': "idle r'" and adv: "position (stream r) + 512 \<le> position (stream r')"
      by simp_all
    from ok' have "position (stream r') \<le> length (data (stream r))"
      by (simp add: stream_ok_def d)
    with adv have "length (data (stream r)) - position (stream r')
          < length (data (stream r)) - position (stream r)"
      by linarith
    then have "length (data (stream r')) - position (stream r')
          < length (data (stream r)) - position (stream r)"
      by (simp only: d)
    from less.hyps [OF this ok' i'] a show ?thesis by (simp add: next_entry.simps [of _ r])
  qed
qed

lemma next_entry_returns:
  assumes "stream_ok (stream r)"
  shows "\<exists>y. next_entry buf r = Some y"
proof -
  obtain st r' where step: "next_entry_step buf r = (st, r')" by (cases "next_entry_step buf r")
  show ?thesis
  proof (cases st)
    case (Done res)
    with step show ?thesis by (simp add: next_entry.simps [of _ r])
  next
    case Again
    with step have a: "next_entry_step buf r = (Again, r')" by simp
    from next_entry_step_progress [OF assms a]
    have "stream_ok (stream r')" and "idle r'" by simp_all
    from next_entry_idle_returns [OF this] a show ?thesis by (simp add: next_entry.simps [of _ r])
  qed
qed

end
